theory Spec2Isabelle
  imports Complex_Main "HOL-Library.Sublist"
begin

section \<open>JSON documents as JavaScript values\<close>

text \<open>
  The values that \<^verbatim>\<open>JSON.parse\<close> returns. An object is the list of its own properties in
  the order in which JavaScript enumerates them; \<open>undefined\<close> (an absent property) is
  \<open>None\<close> of \<open>json option\<close>. A string is the list of its code units.

  A number is a double: \<open>Finite r\<close> is the finite double of value \<open>r\<close> other than the
  negative zero. The parser reads \<^verbatim>\<open>-0\<close> as the negative zero and a numeral beyond the
  range of the doubles, such as \<^verbatim>\<open>1e400\<close>, as an infinity. The code never computes with a
  number.
\<close>

datatype number = Finite real | NegativeZero | PosInfinity | NegInfinity

datatype json =
    JNull
  | JBool bool
  | JNum number
  | JStr string
  | JArr "json list"
  | JObj "(string \<times> json) list"

type_synonym props = "(string \<times> json) list"

subsection \<open>Property keys and their order\<close>

definition digit_char :: "nat \<Rightarrow> char" where
  "digit_char d = ''0123456789'' ! d"

fun show_nat :: "nat \<Rightarrow> string" where
  "show_nat n = (if n < 10 then [digit_char n] else show_nat (n div 10) @ [digit_char (n mod 10)])"

declare show_nat.simps [simp del]

definition is_digit :: "char \<Rightarrow> bool" where
  "is_digit c = (c \<in> set ''0123456789'')"

definition digit_val :: "char \<Rightarrow> nat" where
  "digit_val c = (of_char c :: nat) - 48"

definition read_nat :: "string \<Rightarrow> nat" where
  "read_nat s = foldl (\<lambda>a c. 10 * a + digit_val c) 0 s"

text \<open>
  An array index is the canonical decimal numeral of an integer below \<open>2^32 - 1\<close>.
  JavaScript lists such keys first, in ascending order, and every other string key
  after them in the order of creation.
\<close>

definition array_index :: "string \<Rightarrow> nat option" where
  "array_index s =
     (if s \<noteq> [] \<and> list_all is_digit s \<and> (s = ''0'' \<or> hd s \<noteq> CHR ''0'') \<and> read_nat s < 4294967295
      then Some (read_nat s) else None)"

definition goes_before :: "string \<Rightarrow> string \<Rightarrow> bool" where
  "goes_before a b =
     (case array_index a of
        None \<Rightarrow> False
      | Some i \<Rightarrow> (case array_index b of None \<Rightarrow> True | Some j \<Rightarrow> i < j))"

text \<open>
  \<open>define_prop k v ps\<close> is \<^verbatim>\<open>CreateDataProperty\<close> on an ordinary object: an existing key
  keeps its place and takes the new value, a new key is put where the enumeration order
  has it.
\<close>

fun define_prop :: "string \<Rightarrow> json \<Rightarrow> props \<Rightarrow> props" where
  "define_prop k v [] = [(k, v)]"
| "define_prop k v ((k', v') # ps) =
     (if k = k' then (k, v) # ps
      else if goes_before k k' then (k, v) # (k', v') # ps
      else (k', v') # define_prop k v ps)"

definition key_order :: "string list \<Rightarrow> bool" where
  "key_order ks = (distinct ks \<and> sorted_wrt (\<lambda>a b. \<not> goes_before b a) ks)"

text \<open>A JavaScript value: the keys of every object are distinct and in enumeration order.\<close>

fun js_value :: "json \<Rightarrow> bool" where
  "js_value (JArr xs) = (\<forall>x \<in> set xs. js_value x)"
| "js_value (JObj ps) = (key_order (map fst ps) \<and> (\<forall>(k, v) \<in> set ps. js_value v))"
| "js_value _ = True"


subsection \<open>Printing and parsing\<close>

text \<open>
  \<open>reparsed v\<close> is the value that \<^verbatim>\<open>JSON.parse\<close> makes of the text
  \<^verbatim>\<open>JSON.stringify(v, null, 2)\<close>. The printer writes \<^verbatim>\<open>null\<close> for an infinity and \<^verbatim>\<open>0\<close> for the
  negative zero; a finite double is printed as the shortest numeral that reads back as
  the same double, and strings, arrays and objects are printed part by part.
\<close>

primrec reparsed :: "json \<Rightarrow> json" where
  "reparsed JNull = JNull"
| "reparsed (JBool b) = JBool b"
| "reparsed (JNum n) =
     (case n of
        Finite r \<Rightarrow> JNum (Finite r)
      | NegativeZero \<Rightarrow> JNum (Finite 0)
      | PosInfinity \<Rightarrow> JNull
      | NegInfinity \<Rightarrow> JNull)"
| "reparsed (JStr s) = JStr s"
| "reparsed (JArr xs) = JArr (map reparsed xs)"
| "reparsed (JObj ps) = JObj (map (map_prod id reparsed) ps)"

subsection \<open>Operators of the language\<close>

fun truthy :: "json option \<Rightarrow> bool" where
  "truthy None = False"
| "truthy (Some JNull) = False"
| "truthy (Some (JBool b)) = b"
| "truthy (Some (JNum n)) = (n \<noteq> Finite 0 \<and> n \<noteq> NegativeZero)"
| "truthy (Some (JStr s)) = (s \<noteq> [])"
| "truthy (Some (JArr xs)) = True"
| "truthy (Some (JObj ps)) = True"

fun typeof :: "json option \<Rightarrow> string" where
  "typeof None = ''undefined''"
| "typeof (Some JNull) = ''object''"
| "typeof (Some (JBool b)) = ''boolean''"
| "typeof (Some (JNum n)) = ''number''"
| "typeof (Some (JStr s)) = ''string''"
| "typeof (Some (JArr xs)) = ''object''"
| "typeof (Some (JObj ps)) = ''object''"

text \<open>
  A path is the list of its segments below the root. What is thrown: the two errors that
  the code makes, the \<^verbatim>\<open>TypeError\<close> of the language (its message is left out), and the
  error of a call of \<^verbatim>\<open>node:fs\<close> that the operating system refuses.
\<close>

type_synonym path = "string list"

datatype fs_call = ExistsSync path | ReadFileSync path | MkdirSync path | WriteFileSync path

datatype error =
    InvalidClient string
  | InvalidConfig
  | TypeError
  | SystemError fs_call

text \<open>
  \<open>get_mcpServers v\<close> is the expression \<^verbatim>\<open>v.mcpServers\<close>: a \<^verbatim>\<open>TypeError\<close> on \<open>null\<close>, the
  own property of an object, and \<open>undefined\<close> on every other value (no prototype of
  the language has a property of that name).
\<close>

fun get_mcpServers :: "json \<Rightarrow> error + json option" where
  "get_mcpServers JNull = Inl TypeError"
| "get_mcpServers (JObj ps) = Inr (map_of ps ''mcpServers'')"
| "get_mcpServers _ = Inr None"

text \<open>
  The own enumerable properties that a spread \<^verbatim>\<open>...v\<close> in an object literal copies:
  those of an object, the elements of an array and the code units of a string under
  their indices, nothing for \<open>undefined\<close>, \<open>null\<close>, a number or a boolean.
\<close>

fun own_props :: "json option \<Rightarrow> props" where
  "own_props (Some (JObj ps)) = ps"
| "own_props (Some (JArr xs)) = zip (map show_nat [0..<length xs]) xs"
| "own_props (Some (JStr s)) = zip (map show_nat [0..<length s]) (map (\<lambda>c. JStr [c]) s)"
| "own_props _ = []"

definition spread :: "json option \<Rightarrow> props \<Rightarrow> props" where
  "spread v ps = fold (\<lambda>(k, x). define_prop k x) (own_props v) ps"

section \<open>The configuration module (\<^verbatim>\<open>config.js\<close>, \<^verbatim>\<open>config.ts\<close>)\<close>

text \<open>
  \<^verbatim>\<open>path.join\<close> appends the segments of its
  arguments, \<^verbatim>\<open>path.dirname\<close> drops the last one. The module reads the platform, the
  home directory and two environment variables once, when it is loaded; here they are
  the fields of \<open>env\<close>. The platform is one of the three keys of \<^verbatim>\<open>platformPaths\<close>, as
  the cast in the TypeScript source declares. An environment variable is \<open>None\<close> when it
  is unset or the empty string, the two cases in which \<^verbatim>\<open>||\<close> takes the computed default,
  and \<open>Some p\<close> when it is set to the path \<open>p\<close>.
\<close>

datatype platform = Win32 | Darwin | Linux

record env =
  platform :: platform
  homeDir :: path
  APPDATA :: "path option"
  XDG_CONFIG_HOME :: "path option"

definition or_else :: "path option \<Rightarrow> path \<Rightarrow> path" where
  "or_else v d = (case v of None \<Rightarrow> d | Some p \<Rightarrow> p)"

definition baseDir :: "env \<Rightarrow> path" where
  "baseDir e =
     (case platform e of
        Win32 \<Rightarrow> or_else (APPDATA e) (homeDir e @ [''AppData'', ''Roaming''])
      | Darwin \<Rightarrow> homeDir e @ [''Library'', ''Application Support'']
      | Linux \<Rightarrow> or_else (XDG_CONFIG_HOME e) (homeDir e @ [''.config'']))"

definition vscodePath :: "env \<Rightarrow> path" where
  "vscodePath e =
     (case platform e of
        Win32 \<Rightarrow> [''Code'', ''User'', ''globalStorage'']
      | Darwin \<Rightarrow> [''Code'', ''User'', ''globalStorage'']
      | Linux \<Rightarrow> [''Code'', ''User'', ''globalStorage''])"

text \<open>The table \<^verbatim>\<open>clientPaths\<close> of \<^verbatim>\<open>dist/config.js\<close>.\<close>

definition clientPaths :: "env \<Rightarrow> (string \<times> path) list" where
  "clientPaths e =
     [(''claude'', baseDir e @ [''Claude'', ''claude_desktop_config.json'']),
      (''cline'', baseDir e @ vscodePath e @ [''saoudrizwan.claude-dev'', ''settings'', ''cline_mcp_settings.json'']),
      (''roo-cline'', baseDir e @ vscodePath e @ [''rooveterinaryinc.roo-cline'', ''settings'', ''cline_mcp_settings.json'']),
      (''windsurf'', homeDir e @ [''.codeium'', ''windsurf'', ''mcp_config.json'']),
      (''witsy'', baseDir e @ [''Witsy'', ''settings.json'']),
      (''enconvo'', homeDir e @ [''.config'', ''enconvo'', ''mcp_config.json'']),
      (''cursor'', homeDir e @ [''.cursor'', ''mcp.json''])]"

definition createMagicArgs :: "string \<Rightarrow> string list" where
  "createMagicArgs apiKey =
     [''-y'', ''@gridly-dev/magic@latest'', ''API_KEY='' @ [CHR 0x22] @ apiKey @ [CHR 0x22]]"

definition createPlatformCommand :: "platform \<Rightarrow> string list \<Rightarrow> json" where
  "createPlatformCommand pf passedArgs =
     (if pf = Win32
      then JObj [(''command'', JStr ''cmd''), (''args'', JArr (map JStr ([''/c'', ''npx''] @ passedArgs)))]
      else JObj [(''command'', JStr ''npx''), (''args'', JArr (map JStr passedArgs))])"

text \<open>The parameter default applies when the argument is \<open>undefined\<close>, here \<open>None\<close>.\<close>

definition getDefaultConfig :: "platform \<Rightarrow> string option \<Rightarrow> json" where
  "getDefaultConfig pf apiKey =
     (let magicArgs = createMagicArgs (case apiKey of None \<Rightarrow> ''YOUR_API_KEY'' | Some k \<Rightarrow> k);
          command = createPlatformCommand pf magicArgs
      in JObj [(''mcpServers'', JObj [(''@gridly-dev/magic'', command)])])"

subsection \<open>The TypeScript source of the module\<close>

definition clientPaths_ts :: "env \<Rightarrow> (string \<times> path) list" where
  "clientPaths_ts e =
     [(''claude'', baseDir e @ [''Claude'', ''claude_desktop_config.json'']),
      (''cline'', baseDir e @ vscodePath e @ [''saoudrizwan.claude-dev'', ''settings'', ''cline_mcp_settings.json'']),
      (''roo-cline'', baseDir e @ vscodePath e @ [''rooveterinaryinc.roo-cline'', ''settings'', ''cline_mcp_settings.json'']),
      (''windsurf'', homeDir e @ [''.codeium'', ''windsurf'', ''mcp_config.json'']),
      (''witsy'', baseDir e @ [''Witsy'', ''settings.json'']),
      (''enconvo'', homeDir e @ [''.config'', ''enconvo'', ''mcp_config.json'']),
      (''cursor'', homeDir e @ [''.cursor'', ''mcp.json''])]"

definition createMagicArgs_ts :: "string \<Rightarrow> string list" where
  "createMagicArgs_ts apiKey =
     [''-y'', ''@21st-dev/magic@latest'', ''API_KEY='' @ [CHR 0x22] @ apiKey @ [CHR 0x22]]"

definition createPlatformCommand_ts :: "platform \<Rightarrow> string list \<Rightarrow> json" where
  "createPlatformCommand_ts pf passedArgs =
     (if pf = Win32
      then JObj [(''command'', JStr ''cmd''), (''args'', JArr (map JStr ([''/c'', ''npx''] @ passedArgs)))]
      else JObj [(''command'', JStr ''npx''), (''args'', JArr (map JStr passedArgs))])"

definition getDefaultConfig_ts :: "platform \<Rightarrow> string option \<Rightarrow> json" where
  "getDefaultConfig_ts pf apiKey =
     (let magicArgs = createMagicArgs_ts (case apiKey of None \<Rightarrow> ''YOUR_API_KEY'' | Some k \<Rightarrow> k);
          command = createPlatformCommand_ts pf magicArgs
      in JObj [(''mcpServers'', JObj [(''@21st-dev/magic'', command)])])"



section \<open>Reading and writing a client's configuration (\<^verbatim>\<open>utils.js\<close>)\<close>

subsection \<open>The file system\<close>

text \<open>
  A file is known by what \<^verbatim>\<open>JSON.parse\<close> makes of its text: \<open>JsonText v\<close> is a text that
  parses to the value \<open>v\<close>, \<open>Malformed s\<close> a text \<open>s\<close> on which the parser throws. The
  text that \<^verbatim>\<open>JSON.stringify(v, null, 2)\<close> prints is a function of \<open>v\<close> and parses to
  \<open>reparsed v\<close>, so two files written from values with the same \<open>reparsed\<close> hold the same
  bytes.
\<close>

datatype content = JsonText json | Malformed string

definition JSON_stringify :: "json \<Rightarrow> content" where
  "JSON_stringify v = JsonText (reparsed v)"

text \<open>
  The disk: the regular files, the directories, and the calls that the operating system
  refuses whatever is on the disk (no permission, a full or read-only volume). Every call
  of \<^verbatim>\<open>node:fs\<close> is recorded in \<open>calls\<close>.
\<close>

record world =
  files :: "path \<rightharpoonup> content"
  dirs :: "path set"
  denied :: "fs_call set"
  calls :: "fs_call list"

text \<open>Two worlds with the same disk differ in the record of the calls only.\<close>

definition same_disk :: "world \<Rightarrow> world \<Rightarrow> bool" where
  "same_disk w w' = (files w = files w' \<and> dirs w = dirs w' \<and> denied w = denied w')"

text \<open>\<^verbatim>\<open>fs.existsSync\<close> never throws: it answers \<open>false\<close> when the look at the path is refused.\<close>

definition existsSync :: "path \<Rightarrow> world \<Rightarrow> bool \<times> world" where
  "existsSync p w =
     (ExistsSync p \<notin> denied w \<and> (files w p \<noteq> None \<or> p \<in> dirs w),
      w\<lparr>calls := calls w @ [ExistsSync p]\<rparr>)"

text \<open>\<open>None\<close>: the call throws; the read is refused or there is no regular file at the path.\<close>

definition readFileSync :: "path \<Rightarrow> world \<Rightarrow> content option \<times> world" where
  "readFileSync p w =
     (if ReadFileSync p \<in> denied w then None else files w p,
      w\<lparr>calls := calls w @ [ReadFileSync p]\<rparr>)"

text \<open>
  With \<^verbatim>\<open>recursive: true\<close> the directory and all its ancestors are created, and a directory
  that is there already is no error. The call throws when it is refused or when the path
  or one of its ancestors is a regular file.
\<close>

definition mkdirSync :: "path \<Rightarrow> world \<Rightarrow> (error + unit) \<times> world" where
  "mkdirSync p w =
     (if MkdirSync p \<in> denied w \<or> (\<exists>q \<in> set (prefixes p). files w q \<noteq> None)
      then (Inl (SystemError (MkdirSync p)), w\<lparr>calls := calls w @ [MkdirSync p]\<rparr>)
      else (Inr (), w\<lparr>dirs := dirs w \<union> set (prefixes p), calls := calls w @ [MkdirSync p]\<rparr>))"

text \<open>
  The call throws when it is refused, when the path is a directory, and when the
  directory of the path is not there.
\<close>

definition writeFileSync :: "path \<Rightarrow> content \<Rightarrow> world \<Rightarrow> (error + unit) \<times> world" where
  "writeFileSync p c w =
     (if WriteFileSync p \<in> denied w \<or> p \<in> dirs w \<or> butlast p \<notin> dirs w
      then (Inl (SystemError (WriteFileSync p)), w\<lparr>calls := calls w @ [WriteFileSync p]\<rparr>)
      else (Inr (), w\<lparr>files := (files w)(p \<mapsto> c), calls := calls w @ [WriteFileSync p]\<rparr>))"

text \<open>
  The file at \<open>p\<close> can be written by \<^verbatim>\<open>writeConfig\<close>: no call on the path or on its directory
  is refused, the path is not a directory, and its directory is there or can be made,
  none of the ancestors being a regular file.
\<close>

definition writable :: "path \<Rightarrow> world \<Rightarrow> bool" where
  "writable p w =
     (ExistsSync p \<notin> denied w \<and> ReadFileSync p \<notin> denied w \<and> WriteFileSync p \<notin> denied w \<and>
      ExistsSync (butlast p) \<notin> denied w \<and> MkdirSync (butlast p) \<notin> denied w \<and>
      p \<notin> dirs w \<and>
      (butlast p \<in> dirs w \<or> list_all (\<lambda>q. files w q = None) (prefixes (butlast p))))"

subsection \<open>\<^verbatim>\<open>getConfigPath\<close>\<close>

text \<open>
  \<^verbatim>\<open>clientPaths\<close> is an object literal, so \<^verbatim>\<open>clientPaths[client]\<close> finds, besides the seven own
  properties, the members that every object inherits from \<^verbatim>\<open>Object.prototype\<close>. Those are
  functions (and, for \<^verbatim>\<open>__proto__\<close>, the prototype object): truthy, and not strings.
\<close>

definition object_prototype_keys :: "string list" where
  "object_prototype_keys =
     [''constructor'', ''__defineGetter__'', ''__defineSetter__'', ''hasOwnProperty'',
      ''__lookupGetter__'', ''__lookupSetter__'', ''isPrototypeOf'', ''propertyIsEnumerable'',
      ''toString'', ''valueOf'', ''__proto__'', ''toLocaleString'']"

datatype config_path = PathString path | PrototypeMember string

definition clientPaths_get :: "env \<Rightarrow> string \<Rightarrow> config_path option" where
  "clientPaths_get e client =
     (case map_of (clientPaths e) client of
        Some p \<Rightarrow> Some (PathString p)
      | None \<Rightarrow> if client \<in> set object_prototype_keys then Some (PrototypeMember client) else None)"

definition getConfigPath :: "env \<Rightarrow> string \<Rightarrow> error + config_path" where
  "getConfigPath e client =
     (case clientPaths_get e client of
        None \<Rightarrow> Inl (InvalidClient client)
      | Some configPath \<Rightarrow> Inr configPath)"

subsection \<open>\<^verbatim>\<open>readConfig\<close>\<close>

definition empty_config :: json where
  "empty_config = JObj [(''mcpServers'', JObj [])]"

text \<open>
  \<^verbatim>\<open>fs.existsSync\<close> answers \<open>false\<close> to an argument that is not a path, without a look at
  the disk. Whatever is thrown inside the \<^verbatim>\<open>try\<close> block yields the empty configuration.
\<close>

definition readConfig :: "env \<Rightarrow> string \<Rightarrow> world \<Rightarrow> (error + json) \<times> world" where
  "readConfig e client w =
     (case getConfigPath e client of
        Inl err \<Rightarrow> (Inl err, w)
      | Inr (PrototypeMember m) \<Rightarrow> (Inr empty_config, w)
      | Inr (PathString configPath) \<Rightarrow>
          (let (present, w1) = existsSync configPath w in
           if \<not> present then (Inr empty_config, w1)
           else
             (case readFileSync configPath w1 of
                (Some (JsonText rawConfig), w2) \<Rightarrow>
                  (case get_mcpServers rawConfig of
                     Inl err \<Rightarrow> (Inr empty_config, w2)
                   | Inr m \<Rightarrow>
                       (Inr (JObj (define_prop ''mcpServers''
                                     (case m of None \<Rightarrow> JObj [] | Some v \<Rightarrow> if truthy m then v else JObj [])
                                     (spread (Some rawConfig) []))), w2))
              | (_, w2) \<Rightarrow> (Inr empty_config, w2))))"

subsection \<open>\<^verbatim>\<open>writeConfig\<close>\<close>

text \<open>Lines 84 to 86: the directory of the file is created when it is not found.\<close>

definition ensure_directory :: "path \<Rightarrow> world \<Rightarrow> (error + unit) \<times> world" where
  "ensure_directory configDir w =
     (let (present, w1) = existsSync configDir w in
      if \<not> present then mkdirSync configDir w1 else (Inr (), w1))"

text \<open>Lines 90 to 98: the configuration on disk, or the empty one when there is none to parse.\<close>

definition load_existing :: "path \<Rightarrow> world \<Rightarrow> json \<times> world" where
  "load_existing configPath w =
     (let (present, w1) = existsSync configPath w in
      if \<not> present then (empty_config, w1)
      else
        (case readFileSync configPath w1 of
           (Some (JsonText v), w2) \<Rightarrow> (v, w2)
         | (_, w2) \<Rightarrow> (empty_config, w2)))"

text \<open>What these lines leave in \<^verbatim>\<open>existingConfig\<close>, as a function of the disk.\<close>

definition existing_config :: "world \<Rightarrow> path \<Rightarrow> json" where
  "existing_config w p =
     (if ExistsSync p \<in> denied w \<or> ReadFileSync p \<in> denied w then empty_config
      else (case files w p of Some (JsonText v) \<Rightarrow> v | _ \<Rightarrow> empty_config))"

text \<open>
  Lines 99 to 105: the object literal
  \<^verbatim>\<open>{...existingConfig, mcpServers: {...existingConfig.mcpServers, ...config.mcpServers}}\<close>.
\<close>

definition merge_literal :: "json \<Rightarrow> json option \<Rightarrow> json option \<Rightarrow> json" where
  "merge_literal existingConfig existingServers newServers =
     JObj (define_prop ''mcpServers'' (JObj (spread newServers (spread existingServers [])))
             (spread (Some existingConfig) []))"

text \<open>Lines 87 to 106: the check of the new configuration, the merge and the write.\<close>

definition merge_and_write :: "path \<Rightarrow> json \<Rightarrow> world \<Rightarrow> (error + unit) \<times> world" where
  "merge_and_write configPath config w =
     (case get_mcpServers config of
        Inl err \<Rightarrow> (Inl err, w)
      | Inr newServers \<Rightarrow>
          if \<not> truthy newServers \<or> typeof newServers \<noteq> ''object''
          then (Inl InvalidConfig, w)
          else
            (let (existingConfig, w1) = load_existing configPath w in
             (case get_mcpServers existingConfig of
                Inl err \<Rightarrow> (Inl err, w1)
              | Inr existingServers \<Rightarrow>
                  writeFileSync configPath
                    (JSON_stringify (merge_literal existingConfig existingServers newServers)) w1)))"

text \<open>
  \<^verbatim>\<open>path.dirname\<close> throws a \<^verbatim>\<open>TypeError\<close> on an argument that is not a string. The directory
  is created before \<^verbatim>\<open>config.mcpServers\<close> is looked at.
\<close>

definition writeConfig :: "env \<Rightarrow> string \<Rightarrow> json \<Rightarrow> world \<Rightarrow> (error + unit) \<times> world" where
  "writeConfig e client config w =
     (case getConfigPath e client of
        Inl err \<Rightarrow> (Inl err, w)
      | Inr (PrototypeMember m) \<Rightarrow> (Inl TypeError, w)
      | Inr (PathString configPath) \<Rightarrow>
          (let configDir = butlast configPath in
           (case ensure_directory configDir w of
              (Inl err, w1) \<Rightarrow> (Inl err, w1)
            | (Inr u, w1) \<Rightarrow> merge_and_write configPath config w1)))"

section \<open>The \<^verbatim>\<open>install\<close> command\<close>

subsection \<open>The function \<^verbatim>\<open>install\<close> (\<^verbatim>\<open>index.ts\<close>)\<close>

text \<open>
  The error of \<^verbatim>\<open>writeConfig\<close> is thrown again after it is printed. The spinner, the
  console and the restart prompt of \<^verbatim>\<open>client.js\<close>, which runs after the write, are left out.
\<close>

definition install :: "env \<Rightarrow> string \<Rightarrow> string option \<Rightarrow> world \<Rightarrow> (error + unit) \<times> world" where
  "install e client apiKey w =
     (let config = JObj (spread (Some (getDefaultConfig (platform e) apiKey)) [])
      in writeConfig e client config w)"

subsection \<open>The action of the command (\<^verbatim>\<open>cli.ts\<close>, lines 59 to 89)\<close>

text \<open>Modelled from the spec: \<^verbatim>\<open>VALID_CLIENTS\<close>, a constant of \<^verbatim>\<open>types.js\<close>, which is not among the
  sources. It is the closed set of client identifiers of section 4.1 of the
  specification, the keys of \<^verbatim>\<open>clientPaths\<close>.
\<close>

definition VALID_CLIENTS :: "string list" where
  "VALID_CLIENTS = [''claude'', ''cline'', ''roo-cline'', ''windsurf'', ''witsy'', ''enconvo'', ''cursor'']"

text \<open>
  The action is the one caller of \<^verbatim>\<open>install\<close>. An identifier that is not in \<^verbatim>\<open>VALID_CLIENTS\<close> is
  refused with the message \<^verbatim>\<open>Invalid client\<close> before \<^verbatim>\<open>install\<close> is called; what \<^verbatim>\<open>install\<close>
  throws is printed. \<open>Inl\<close> is the failure with which the process leaves, with status \<open>1\<close>.
\<close>

definition install_command :: "env \<Rightarrow> string \<Rightarrow> string option \<Rightarrow> world \<Rightarrow> (error + unit) \<times> world" where
  "install_command e client apiKey w =
     (if client \<notin> set VALID_CLIENTS then (Inl (InvalidClient client), w)
      else install e client apiKey w)"

subsection \<open>Example inputs\<close>

text \<open>
  A Linux host, the path of Cursor's file on it, and states of the disk: empty; with a
  configuration that has a server of its own, an older entry of the server to install and
  a key of its own; with a file that does not parse; with a number beyond the doubles;
  and with \<^verbatim>\<open>mcpServers\<close> set to \<^verbatim>\<open>null\<close>.
\<close>

definition linux_env :: env where
  "linux_env = \<lparr>platform = Linux, homeDir = [''home'', ''u''], APPDATA = None, XDG_CONFIG_HOME = None\<rparr>"

definition cursor_path :: path where
  "cursor_path = [''home'', ''u'', ''.cursor'', ''mcp.json'']"

definition foreign_document :: props where
  "foreign_document =
     [(''mcpServers'',
       JObj [(''other'', JObj [(''command'', JStr ''node''), (''args'', JArr [JStr ''server.js''])]),
             (''@gridly-dev/magic'', JObj [(''command'', JStr ''old''), (''args'', JArr [])])]),
      (''customKey'', JNum (Finite 42))]"

definition world_with :: "content \<Rightarrow> world" where
  "world_with c =
     \<lparr>files = [cursor_path \<mapsto> c],
      dirs = {[], [''home''], [''home'', ''u''], [''home'', ''u'', ''.cursor'']},
      denied = {}, calls = []\<rparr>"

definition empty_world :: world where
  "empty_world = \<lparr>files = Map.empty, dirs = {}, denied = {}, calls = []\<rparr>"

definition foreign_world :: world where
  "foreign_world = world_with (JsonText (JObj foreign_document))"

definition corrupt_world :: world where
  "corrupt_world = world_with (Malformed ''{ mcpServers: '')"


definition null_servers_world :: world where
  "null_servers_world =
     world_with (JsonText (JObj [(''mcpServers'', JNull), (''theme'', JStr ''dark'')]))"

section \<open>The \<^verbatim>\<open>add\<close> command (\<^verbatim>\<open>cli.ts\<close>)\<close>

subsection \<open>Manifest entries\<close>

datatype sourceType = url_success | direct_name | url_fetch_failed

record ManifestEntry =
  name :: string
  sourceUrl :: "string option"
  sourceType :: sourceType
  registryItem :: "json option"
  fetchError :: "string option"
  addedByCLI :: bool

text \<open>
  The manifest file \<^verbatim>\<open>21st-registry.json\<close> in the working directory: absent, a text that
  does not parse, a JSON value that is not an array, or an array, whose elements the
  code takes to be \<^verbatim>\<open>ManifestEntry\<close> objects.
\<close>

datatype manifest_file =
    NoManifest
  | BadManifest string
  | NotAnArray json
  | Manifest "ManifestEntry list"

subsection \<open>The collaborators\<close>

text \<open>
  The URL parser, \<^verbatim>\<open>fetch\<close> and \<^verbatim>\<open>execSync\<close> are outside the program; a run is given what
  they answer. \<open>url_protocol s\<close> is the protocol of \<^verbatim>\<open>new URL(s)\<close>, \<open>None\<close> when the
  constructor throws. A registry item is the fetched document with its \<^verbatim>\<open>name\<close>
  property, a string as \<^verbatim>\<open>ManifestEntry\<close> declares the name to be. \<open>BodyThrows\<close> is a body
  from which no registry item is read: \<^verbatim>\<open>response.json()\<close> throws, or the document is
  \<open>null\<close> and the look at its name throws.
\<close>

record registry_item =
  item_name :: "string option"
  item_document :: json

datatype body = BodyThrows string | BodyJson registry_item

datatype fetch_outcome =
    FetchThrows string
  | Response bool nat string body

datatype exec_outcome = ExecDone | ExecThrows "int option"

record collaborators =
  url_protocol :: "string \<Rightarrow> string option"
  fetch :: "string \<Rightarrow> fetch_outcome"
  execSync :: "string \<Rightarrow> exec_outcome"

datatype event = Fetch string | Exec string | ReadManifest | WriteManifest

record add_world =
  manifest :: manifest_file
  events :: "event list"

subsection \<open>Lines 110 to 183: the entry that is prepared\<close>

definition isUrl :: "collaborators \<Rightarrow> string \<Rightarrow> bool" where
  "isUrl c componentIdentifier =
     (case url_protocol c componentIdentifier of
        None \<Rightarrow> False
      | Some protocol \<Rightarrow> protocol = ''http:'' \<or> protocol = ''https:'')"

text \<open>The body of the inner \<^verbatim>\<open>try\<close>: \<open>Inl\<close> is the message of what is thrown there.\<close>

definition fetch_item :: "fetch_outcome \<Rightarrow> string + registry_item" where
  "fetch_item r =
     (case r of
        FetchThrows message \<Rightarrow> Inl message
      | Response ok status statusText b \<Rightarrow>
          if \<not> ok then Inl (''Failed to fetch: '' @ show_nat status @ '' '' @ statusText)
          else (case b of BodyThrows message \<Rightarrow> Inl message | BodyJson item \<Rightarrow> Inr item))"

definition prepare_entry :: "collaborators \<Rightarrow> string \<Rightarrow> add_world \<Rightarrow> ManifestEntry \<times> add_world" where
  "prepare_entry c componentIdentifier w =
     (if isUrl c componentIdentifier then
        (let w1 = w\<lparr>events := events w @ [Fetch componentIdentifier]\<rparr> in
         case fetch_item (fetch c componentIdentifier) of
           Inr item \<Rightarrow>
             (\<lparr>name = (case item_name item of
                         None \<Rightarrow> componentIdentifier
                       | Some n \<Rightarrow> if n = [] then componentIdentifier else n),
               sourceUrl = Some componentIdentifier,
               sourceType = url_success,
               registryItem = Some (item_document item),
               fetchError = None,
               addedByCLI = True\<rparr>, w1)
         | Inl errorMessage \<Rightarrow>
             (\<lparr>name = componentIdentifier,
               sourceUrl = Some componentIdentifier,
               sourceType = url_fetch_failed,
               registryItem = None,
               fetchError = Some errorMessage,
               addedByCLI = True\<rparr>, w1))
      else
        (\<lparr>name = componentIdentifier,
          sourceUrl = None,
          sourceType = direct_name,
          registryItem = None,
          fetchError = None,
          addedByCLI = True\<rparr>, w))"

subsection \<open>Lines 203 to 252: the manifest update\<close>

definition load_manifest :: "add_world \<Rightarrow> ManifestEntry list \<times> add_world" where
  "load_manifest w =
     (case manifest w of
        NoManifest \<Rightarrow> ([], w)
      | BadManifest s \<Rightarrow> ([], w\<lparr>events := events w @ [ReadManifest]\<rparr>)
      | NotAnArray v \<Rightarrow> ([], w\<lparr>events := events w @ [ReadManifest]\<rparr>)
      | Manifest entries \<Rightarrow> (entries, w\<lparr>events := events w @ [ReadManifest]\<rparr>))"

text \<open>The entries that a file stands for, and the pair that tells entries apart.\<close>

definition stored_entries :: "manifest_file \<Rightarrow> ManifestEntry list" where
  "stored_entries f = (case f of Manifest entries \<Rightarrow> entries | _ \<Rightarrow> [])"

definition entry_key :: "ManifestEntry \<Rightarrow> string \<times> sourceType" where
  "entry_key entry = (name entry, sourceType entry)"

definition isDuplicate :: "ManifestEntry list \<Rightarrow> ManifestEntry \<Rightarrow> bool" where
  "isDuplicate entries newEntry =
     list_ex (\<lambda>entry. name entry = name newEntry \<and> sourceType entry = sourceType newEntry) entries"

datatype report = Added | AlreadyTracked

definition recordEntry :: "ManifestEntry \<Rightarrow> add_world \<Rightarrow> report \<times> add_world" where
  "recordEntry newEntry w =
     (let (entries, w1) = load_manifest w in
      if \<not> isDuplicate entries newEntry
      then (Added, w1\<lparr>manifest := Manifest (entries @ [newEntry]), events := events w1 @ [WriteManifest]\<rparr>)
      else (AlreadyTracked, w1))"

subsection \<open>The action of the command\<close>

datatype outcome = Completed report | Exit int

definition shadcnCommand :: "bool \<Rightarrow> string \<Rightarrow> string" where
  "shadcnCommand install_option componentIdentifier =
     ''npx '' @ (if \<not> install_option then ''-y --no-install'' else ''-y'') @ '' shadcn add '' @ componentIdentifier"

text \<open>
  What \<^verbatim>\<open>execSync\<close> throws reaches the outer \<^verbatim>\<open>catch\<close>, which leaves with the status of the
  error when that is a number other than \<open>0\<close>, and with \<open>1\<close> otherwise.
\<close>

definition add_action :: "collaborators \<Rightarrow> string \<Rightarrow> bool \<Rightarrow> add_world \<Rightarrow> outcome \<times> add_world" where
  "add_action c componentIdentifier install_option w =
     (let (newEntry, w1) = prepare_entry c componentIdentifier w;
          command = shadcnCommand install_option componentIdentifier;
          w2 = w1\<lparr>events := events w1 @ [Exec command]\<rparr>
      in case execSync c command of
           ExecThrows status \<Rightarrow>
             (Exit (case status of None \<Rightarrow> 1 | Some n \<Rightarrow> if n \<noteq> 0 then n else 1), w2)
         | ExecDone \<Rightarrow>
             (let (r, w3) = recordEntry newEntry w2 in (Completed r, w3)))"


subsection \<open>Example inputs\<close>

definition button_entry :: "sourceType \<Rightarrow> ManifestEntry" where
  "button_entry t =
     \<lparr>name = ''button'', sourceUrl = None, sourceType = t, registryItem = None,
      fetchError = None, addedByCLI = True\<rparr>"

definition button_world :: add_world where
  "button_world = \<lparr>manifest = Manifest [button_entry direct_name], events = []\<rparr>"

definition registry_url :: string where
  "registry_url = ''https://21st.dev/r/button''"

definition failing_installer :: collaborators where
  "failing_installer =
     \<lparr>url_protocol = (\<lambda>s. if s = registry_url then Some ''https:'' else None),
      fetch = (\<lambda>s. Response False 404 ''Not Found'' (BodyThrows [])),
      execSync = (\<lambda>s. ExecThrows (Some 2))\<rparr>"

definition working_installer :: collaborators where
  "working_installer =
     \<lparr>url_protocol = (\<lambda>s. if s = registry_url then Some ''https:'' else None),
      fetch = (\<lambda>s. FetchThrows ''fetch failed''),
      execSync = (\<lambda>s. ExecDone)\<rparr>"

lemma digit_val_digit_char: "d < 10 \<Longrightarrow> digit_val (digit_char d) = d"
proof -
  assume "d < 10"
  then have "d \<in> {0, 1, 2, 3, 4, 5, 6, 7, 8, 9}" by auto
  then show ?thesis by (auto simp: digit_val_def digit_char_def)
qed

lemma read_nat_snoc: "read_nat (s @ [c]) = 10 * read_nat s + digit_val c"
  by (simp add: read_nat_def)

lemma read_nat_show_nat: "read_nat (show_nat n) = n"
proof (induction n rule: show_nat.induct)
  case (1 n)
  show ?case
  proof (cases "n < 10")
    case True
    then show ?thesis by (simp add: show_nat.simps [of n] read_nat_def digit_val_digit_char)
  next
    case False
    with 1 show ?thesis by (simp add: show_nat.simps [of n] read_nat_snoc digit_val_digit_char)
  qed
qed

lemma inj_show_nat: "inj show_nat"
  by (metis injI read_nat_show_nat)

lemma distinct_index_keys: "distinct (map show_nat [0..<n])"
  by (simp add: distinct_map inj_show_nat inj_on_def injD [OF inj_show_nat])

lemma goes_before_irrefl: "\<not> goes_before a a"
  by (simp add: goes_before_def split: option.splits)

lemma goes_before_asym: "goes_before a b \<Longrightarrow> \<not> goes_before b a"
  by (auto simp: goes_before_def split: option.splits)

lemma goes_before_trans: "goes_before a b \<Longrightarrow> goes_before b c \<Longrightarrow> goes_before a c"
  by (auto simp: goes_before_def split: option.splits)

lemma map_of_define_prop: "map_of (define_prop k v ps) = (map_of ps)(k \<mapsto> v)"
  by (induction ps) (auto simp: fun_upd_twist)

lemma keys_define_prop: "fst ` set (define_prop k v ps) = insert k (fst ` set ps)"
proof -
  have "dom (map_of (define_prop k v ps)) = insert k (dom (map_of ps))"
    by (simp add: map_of_define_prop)
  then show ?thesis by (simp add: dom_map_of_conv_image_fst)
qed

lemma key_order_Cons:
  "key_order (a # ks) \<longleftrightarrow> a \<notin> set ks \<and> (\<forall>b \<in> set ks. \<not> goes_before b a) \<and> key_order ks"
  by (auto simp: key_order_def)

lemma key_order_define_prop:
  "key_order (map fst ps) \<Longrightarrow> key_order (map fst (define_prop k v ps))"
proof (induction ps)
  case Nil
  then show ?case by (simp add: key_order_def)
next
  case (Cons a ps)
  obtain k' v' where a: "a = (k', v')" by (cases a)
  from Cons.prems have ord: "k' \<notin> fst ` set ps" "\<forall>b \<in> fst ` set ps. \<not> goes_before b k'" "key_order (map fst ps)"
    by (auto simp: a key_order_Cons)
  show ?case
  proof (cases "k = k'")
    case True
    with Cons.prems show ?thesis by (simp add: a)
  next
    case neq: False
    show ?thesis
    proof (cases "goes_before k k'")
      case True
      have "k \<notin> fst ` set ps"
        using ord(2) True by auto
      moreover have "\<forall>b \<in> fst ` set ps. \<not> goes_before b k"
        using ord(2) True goes_before_trans by blast
      ultimately show ?thesis
        using True neq Cons.prems goes_before_asym [OF True]
        by (auto simp: a key_order_Cons)
    next
      case False
      have "key_order (map fst (define_prop k v ps))"
        using Cons.IH ord(3) by simp
      then show ?thesis
        using False neq ord keys_define_prop [of k v ps]
        by (auto simp: a key_order_Cons)
    qed
  qed
qed

lemma define_prop_present:
  "key_order (map fst ps) \<Longrightarrow> map_of ps k = Some v \<Longrightarrow> define_prop k v ps = ps"
proof (induction ps)
  case Nil
  then show ?case by simp
next
  case (Cons a ps)
  obtain k' v' where a: "a = (k', v')" by (cases a)
  show ?case
  proof (cases "k = k'")
    case True
    with Cons.prems show ?thesis by (simp add: a)
  next
    case False
    with Cons.prems have m: "map_of ps k = Some v" by (simp add: a)
    then have "k \<in> fst ` set ps" by (metis map_of_eq_None_iff option.distinct(1))
    with Cons.prems have "\<not> goes_before k k'" by (auto simp: a key_order_Cons)
    with False Cons m show ?thesis by (simp add: a key_order_Cons)
  qed
qed

lemma define_prop_last:
  "key_order (map fst (qs @ [(k, v)])) \<Longrightarrow> define_prop k v qs = qs @ [(k, v)]"
proof (induction qs)
  case Nil
  then show ?case by simp
next
  case (Cons a qs)
  obtain k' v' where a: "a = (k', v')" by (cases a)
  from Cons.prems have "k \<noteq> k'" "\<not> goes_before k k'" "key_order (map fst (qs @ [(k, v)]))"
    by (auto simp: a key_order_Cons)
  with Cons.IH show ?case by (simp add: a)
qed

lemma key_order_prefix: "key_order (ks @ ls) \<Longrightarrow> key_order ks"
  by (auto simp: key_order_def sorted_wrt_append)

lemma fold_define_prop_ordered:
  "key_order (map fst (qs @ ps)) \<Longrightarrow> fold (\<lambda>(k, x). define_prop k x) ps qs = qs @ ps"
proof (induction ps arbitrary: qs)
  case Nil
  then show ?case by simp
next
  case (Cons a ps)
  obtain k v where a: "a = (k, v)" by (cases a)
  from Cons.prems have "key_order (map fst ((qs @ [(k, v)]) @ ps))" by (simp add: a)
  moreover from this have "key_order (map fst (qs @ [(k, v)]))"
    using key_order_prefix [of "map fst (qs @ [(k, v)])" "map fst ps"] by simp
  ultimately show ?case
    using Cons.IH [of "qs @ [(k, v)]"] by (simp add: a define_prop_last)
qed

lemma key_order_fold_define_prop:
  "key_order (map fst qs) \<Longrightarrow> key_order (map fst (fold (\<lambda>(k, x). define_prop k x) ps qs))"
  by (induction ps arbitrary: qs) (auto simp: key_order_define_prop)

lemma map_of_fold_define_prop:
  "map_of (fold (\<lambda>(k, x). define_prop k x) ps qs) = map_of qs ++ map_of (rev ps)"
  by (induction ps arbitrary: qs) (auto simp: map_of_define_prop map_add_def fun_eq_iff split: option.splits)

lemma fold_define_prop_present:
  "key_order (map fst qs) \<Longrightarrow> \<forall>(k, v) \<in> set ps. map_of qs k = Some v \<Longrightarrow>
   fold (\<lambda>(k, x). define_prop k x) ps qs = qs"
  by (induction ps arbitrary: qs) (auto simp: define_prop_present)

section \<open>The default command\<close>

lemma createPlatformCommand_ts_eq: "createPlatformCommand_ts = createPlatformCommand"
  by (simp add: fun_eq_iff createPlatformCommand_ts_def createPlatformCommand_def)

lemma clientPaths_ts_eq: "clientPaths_ts = clientPaths"
  by (simp add: fun_eq_iff clientPaths_ts_def clientPaths_def)

text \<open>
  C7. For a key \<open>k\<close> the TypeScript module builds the arguments \<^verbatim>\<open>-y\<close>,
  \<^verbatim>\<open>@21st-dev/magic@latest\<close> and \<^verbatim>\<open>API_KEY="k"\<close>, the key copied as it is between the two
  quotes. On Windows the command is \<^verbatim>\<open>cmd\<close> with \<^verbatim>\<open>/c\<close>, \<^verbatim>\<open>npx\<close> and these arguments, on macOS
  and Linux it is \<^verbatim>\<open>npx\<close> with the arguments alone. Without a key the result is the one
  for the key \<^verbatim>\<open>YOUR_API_KEY\<close>. The compiled module builds the same with its own package
  identifier.
\<close>

theorem default_command_builder:
  "getDefaultConfig_ts Win32 (Some k) =
     JObj [(''mcpServers'', JObj [(''@21st-dev/magic'',
       JObj [(''command'', JStr ''cmd''),
             (''args'', JArr [JStr ''/c'', JStr ''npx'', JStr ''-y'', JStr ''@21st-dev/magic@latest'',
                              JStr (''API_KEY='' @ [CHR 0x22] @ k @ [CHR 0x22])])])])] \<and>
   getDefaultConfig_ts Darwin (Some k) =
     JObj [(''mcpServers'', JObj [(''@21st-dev/magic'',
       JObj [(''command'', JStr ''npx''),
             (''args'', JArr [JStr ''-y'', JStr ''@21st-dev/magic@latest'',
                              JStr (''API_KEY='' @ [CHR 0x22] @ k @ [CHR 0x22])])])])] \<and>
   getDefaultConfig_ts Linux (Some k) =
     JObj [(''mcpServers'', JObj [(''@21st-dev/magic'',
       JObj [(''command'', JStr ''npx''),
             (''args'', JArr [JStr ''-y'', JStr ''@21st-dev/magic@latest'',
                              JStr (''API_KEY='' @ [CHR 0x22] @ k @ [CHR 0x22])])])])] \<and>
   getDefaultConfig_ts pf None = getDefaultConfig_ts pf (Some ''YOUR_API_KEY'') \<and>
   getDefaultConfig Win32 (Some k) =
     JObj [(''mcpServers'', JObj [(''@gridly-dev/magic'',
       JObj [(''command'', JStr ''cmd''),
             (''args'', JArr [JStr ''/c'', JStr ''npx'', JStr ''-y'', JStr ''@gridly-dev/magic@latest'',
                              JStr (''API_KEY='' @ [CHR 0x22] @ k @ [CHR 0x22])])])])] \<and>
   getDefaultConfig Darwin (Some k) =
     JObj [(''mcpServers'', JObj [(''@gridly-dev/magic'',
       JObj [(''command'', JStr ''npx''),
             (''args'', JArr [JStr ''-y'', JStr ''@gridly-dev/magic@latest'',
                              JStr (''API_KEY='' @ [CHR 0x22] @ k @ [CHR 0x22])])])])] \<and>
   getDefaultConfig Linux (Some k) =
     JObj [(''mcpServers'', JObj [(''@gridly-dev/magic'',
       JObj [(''command'', JStr ''npx''),
             (''args'', JArr [JStr ''-y'', JStr ''@gridly-dev/magic@latest'',
                              JStr (''API_KEY='' @ [CHR 0x22] @ k @ [CHR 0x22])])])])] \<and>
   getDefaultConfig pf None = getDefaultConfig pf (Some ''YOUR_API_KEY'')"
  by (simp add: getDefaultConfig_ts_def createMagicArgs_ts_def createPlatformCommand_ts_def
      getDefaultConfig_def createMagicArgs_def createPlatformCommand_def)

text \<open>
  C10. The two modules agree on \<^verbatim>\<open>clientPaths\<close> and \<^verbatim>\<open>createPlatformCommand\<close>, and differ in
  \<^verbatim>\<open>getDefaultConfig\<close> on every platform and for every key: the compiled module names the
  server and the package \<^verbatim>\<open>@gridly-dev/magic\<close>, the source \<^verbatim>\<open>@21st-dev/magic\<close>.
\<close>

theorem compiled_module_differs:
  "getDefaultConfig Linux (Some ''abc123'') =
     JObj [(''mcpServers'', JObj [(''@gridly-dev/magic'',
       JObj [(''command'', JStr ''npx''),
             (''args'', JArr [JStr ''-y'', JStr ''@gridly-dev/magic@latest'',
                              JStr (''API_KEY='' @ [CHR 0x22] @ ''abc123'' @ [CHR 0x22])])])])] \<and>
   getDefaultConfig_ts Linux (Some ''abc123'') =
     JObj [(''mcpServers'', JObj [(''@21st-dev/magic'',
       JObj [(''command'', JStr ''npx''),
             (''args'', JArr [JStr ''-y'', JStr ''@21st-dev/magic@latest'',
                              JStr (''API_KEY='' @ [CHR 0x22] @ ''abc123'' @ [CHR 0x22])])])])] \<and>
   getDefaultConfig pf apiKey \<noteq> getDefaultConfig_ts pf apiKey"
  by (simp add: getDefaultConfig_ts_def createMagicArgs_ts_def createPlatformCommand_ts_def
      getDefaultConfig_def createMagicArgs_def createPlatformCommand_def Let_def)

section \<open>Clients\<close>

lemma closed_client_set:
  "map_of (clientPaths e) client \<noteq> None \<longleftrightarrow>
   client \<in> {''claude'', ''cline'', ''roo-cline'', ''windsurf'', ''witsy'', ''enconvo'', ''cursor''}"
  by (simp add: clientPaths_def)

lemma valid_clients_are_the_table: "client \<in> set VALID_CLIENTS \<longleftrightarrow> map_of (clientPaths e) client \<noteq> None"
  unfolding closed_client_set by (simp add: VALID_CLIENTS_def)

lemma getConfigPath_valid:
  "map_of (clientPaths e) client = Some p \<Longrightarrow> getConfigPath e client = Inr (PathString p)"
  by (simp add: getConfigPath_def clientPaths_get_def)

lemma client_path_not_root: "map_of (clientPaths e) client = Some p \<Longrightarrow> p \<noteq> []"
  by (auto simp: clientPaths_def split: if_splits)

lemma writeConfig_outside_closed_set:
  assumes "map_of (clientPaths e) client = None"
  shows "\<exists>err. writeConfig e client config w = (Inl err, w)"
  using assms by (simp add: writeConfig_def getConfigPath_def clientPaths_get_def)

lemma writeConfig_invalid_client:
  assumes "map_of (clientPaths e) client = None" and "client \<notin> set object_prototype_keys"
  shows "writeConfig e client config w = (Inl (InvalidClient client), w)"
  using assms by (simp add: writeConfig_def getConfigPath_def clientPaths_get_def)

text \<open>
  A direct call with an identifier that \<^verbatim>\<open>clientPaths\<close> inherits from \<^verbatim>\<open>Object.prototype\<close> passes
  the check of \<^verbatim>\<open>getConfigPath\<close> and fails in \<^verbatim>\<open>path.dirname\<close>, without a call of the file system.
  The action of the command never makes that call.
\<close>

lemma inherited_member_direct_call:
  "getConfigPath e ''constructor'' = Inr (PrototypeMember ''constructor'')"
  "writeConfig e ''constructor'' config w = (Inl TypeError, w)"
  by (simp_all add: writeConfig_def getConfigPath_def clientPaths_get_def clientPaths_def
      object_prototype_keys_def)

text \<open>
  C6. An identifier outside the closed set of the seven clients makes the command
  \<^verbatim>\<open>install\<close> fail with the invalid-client error and leaves the world as it was: no call of
  the file system is made and nothing is written. The function \<^verbatim>\<open>install\<close> and \<^verbatim>\<open>writeConfig\<close>,
  called with such an identifier that is not a member of \<^verbatim>\<open>Object.prototype\<close>, fail in the
  same way.
\<close>

theorem invalid_client_is_refused:
  assumes "client \<notin> {''claude'', ''cline'', ''roo-cline'', ''windsurf'', ''witsy'', ''enconvo'', ''cursor''}"
  shows "install_command e client apiKey w = (Inl (InvalidClient client), w) \<and>
         (client \<notin> set object_prototype_keys \<longrightarrow>
            install e client apiKey w = (Inl (InvalidClient client), w) \<and>
            writeConfig e client config w = (Inl (InvalidClient client), w))"
proof -
  have n: "map_of (clientPaths e) client = None"
    using assms closed_client_set [of e client] by simp
  have "client \<notin> set VALID_CLIENTS"
    using n by (simp add: valid_clients_are_the_table [of client e])
  then show ?thesis
    using n by (simp add: install_command_def install_def writeConfig_invalid_client)
qed

theorem invalid_client_is_refused_witness:
  "install_command linux_env ''constructor'' (Some ''abc123'') foreign_world =
     (Inl (InvalidClient ''constructor''), foreign_world) \<and>
   install_command linux_env ''vscode'' None empty_world = (Inl (InvalidClient ''vscode''), empty_world) \<and>
   install linux_env ''vscode'' None empty_world = (Inl (InvalidClient ''vscode''), empty_world) \<and>
   writeConfig linux_env ''vscode'' (JObj []) empty_world = (Inl (InvalidClient ''vscode''), empty_world) \<and>
   calls empty_world = []"
proof -
  have c: "''constructor'' \<notin> {''claude'', ''cline'', ''roo-cline'', ''windsurf'', ''witsy'', ''enconvo'', ''cursor''}"
    by simp
  have v: "''vscode'' \<notin> {''claude'', ''cline'', ''roo-cline'', ''windsurf'', ''witsy'', ''enconvo'', ''cursor''}"
    by simp
  have m: "''vscode'' \<notin> set object_prototype_keys"
    by (simp add: object_prototype_keys_def)
  from invalid_client_is_refused [OF c, of linux_env "Some ''abc123''" foreign_world]
    invalid_client_is_refused [OF v, of linux_env None empty_world "JObj []"] m
  show ?thesis by (simp add: empty_world_def)
qed

section \<open>The merge\<close>

lemma map_of_rev_distinct: "distinct (map fst xs) \<Longrightarrow> map_of (rev xs) = map_of xs"
  by (subst map_of_inject_set) (simp_all add: distinct_rev rev_map [symmetric])

lemma key_order_Nil: "key_order []"
  by (simp add: key_order_def)

lemma key_order_spread: "key_order (map fst ps) \<Longrightarrow> key_order (map fst (spread v ps))"
  by (simp add: spread_def key_order_fold_define_prop)


lemma spread_object: "key_order (map fst ps) \<Longrightarrow> spread (Some (JObj ps)) [] = ps"
  using fold_define_prop_ordered [of "[]" ps] by (simp add: spread_def)

lemma fold_define_prop_twice:
  assumes "key_order (map fst qs)" and "distinct (map fst cs)"
  shows "fold (\<lambda>(k, x). define_prop k x) cs (fold (\<lambda>(k, x). define_prop k x) cs qs) =
         fold (\<lambda>(k, x). define_prop k x) cs qs"
proof (rule fold_define_prop_present)
  show "key_order (map fst (fold (\<lambda>(k, x). define_prop k x) cs qs))"
    using assms(1) by (rule key_order_fold_define_prop)
  show "\<forall>(k, v) \<in> set cs. map_of (fold (\<lambda>(k, x). define_prop k x) cs qs) k = Some v"
    using assms(2) by (auto simp: map_of_fold_define_prop map_of_rev_distinct map_add_def)
qed

lemma own_props_distinct: "js_value v \<Longrightarrow> distinct (map fst (own_props (Some v)))"
  by (cases v) (simp_all add: key_order_def distinct_index_keys)

lemma servers_distinct:
  assumes "js_value c" and "get_mcpServers c = Inr s"
  shows "distinct (map fst (own_props s))"
proof (cases s)
  case None
  then show ?thesis by simp
next
  case (Some v)
  with assms have "js_value v"
    by (cases c) (auto dest: map_of_SomeD)
  with Some show ?thesis by (simp add: own_props_distinct)
qed



lemma get_mcpServers_merge_literal:
  "get_mcpServers (merge_literal x es ns) = Inr (Some (JObj (spread ns (spread es []))))"
  by (simp add: merge_literal_def map_of_define_prop)

subsection \<open>Printing the merged document\<close>

lemma reparsed_twice: "reparsed (reparsed v) = reparsed v"
  by (induction v) (auto split: number.splits prod.splits)

lemma keys_reparsed: "map fst (map (map_prod id reparsed) ps) = map fst ps"
  by (induction ps) auto

lemma map_of_reparsed:
  "map_of (map (map_prod id reparsed) ps) k = map_option reparsed (map_of ps k)"
  by (induction ps) auto

lemma define_prop_reparsed:
  "map (map_prod id reparsed) (define_prop k v ps) =
   define_prop k (reparsed v) (map (map_prod id reparsed) ps)"
  by (induction ps) auto

lemma fold_define_prop_reparsed:
  "map (map_prod id reparsed) (fold (\<lambda>(k, x). define_prop k x) cs ps) =
   fold (\<lambda>(k, x). define_prop k x) (map (map_prod id reparsed) cs) (map (map_prod id reparsed) ps)"
  by (induction cs arbitrary: ps) (auto simp: define_prop_reparsed)


lemma reparsed_merge_literal:
  "reparsed (merge_literal x es ns) =
   JObj (define_prop ''mcpServers''
           (JObj (fold (\<lambda>(k, x). define_prop k x) (map (map_prod id reparsed) (own_props ns))
                    (map (map_prod id reparsed) (spread es []))))
           (map (map_prod id reparsed) (spread (Some x) [])))"
  by (simp add: merge_literal_def define_prop_reparsed spread_def [of ns] fold_define_prop_reparsed)

text \<open>
  The document that a write has left is merged with the same configuration to a
  document that prints the same.
\<close>

lemma merge_literal_again:
  assumes "distinct (map fst (own_props ns))"
  shows "reparsed (merge_literal (reparsed (merge_literal x es ns))
            (Some (JObj (map (map_prod id reparsed) (spread ns (spread es []))))) ns) =
         reparsed (merge_literal x es ns)"
proof -
  let ?r = "map (map_prod id reparsed)"
  let ?f = "fold (\<lambda>(k, x). define_prop k x)"
  let ?C = "?r (own_props ns)"
  let ?S = "?f ?C (?r (spread es []))"
  let ?T = "define_prop ''mcpServers'' (JObj ?S) (?r (spread (Some x) []))"
  have rS: "?r (spread ns (spread es [])) = ?S"
    by (simp add: spread_def [of ns] fold_define_prop_reparsed)
  have first: "reparsed (merge_literal x es ns) = JObj ?T"
    by (rule reparsed_merge_literal)
  have dC: "distinct (map fst ?C)"
    using assms by (simp add: keys_reparsed)
  have kE: "key_order (map fst (?r (spread es [])))"
    by (simp add: keys_reparsed key_order_spread key_order_Nil)
  have kS: "key_order (map fst ?S)"
    using kE by (rule key_order_fold_define_prop)
  have kT: "key_order (map fst ?T)"
    by (simp add: key_order_define_prop keys_reparsed key_order_spread key_order_Nil)
  have rr: "?r (?r ps) = ?r ps" "map (map_prod id reparsed \<circ> map_prod id reparsed) ps = ?r ps" for ps
    by (induction ps) (auto simp: reparsed_twice)
  have S2: "?f ?C (?r (spread (Some (JObj ?S)) [])) = ?S"
  proof -
    have "spread (Some (JObj ?S)) [] = ?S"
      using kS by (rule spread_object)
    moreover have "?r ?S = ?S"
      by (simp add: fold_define_prop_reparsed rr)
    moreover have "?f ?C ?S = ?S"
      using kE dC by (rule fold_define_prop_twice)
    ultimately show ?thesis by simp
  qed
  have T2: "?r (spread (Some (JObj ?T)) []) = ?T"
  proof -
    have "spread (Some (JObj ?T)) [] = ?T"
      using kT by (rule spread_object)
    moreover have "?r ?T = ?T"
      by (simp add: define_prop_reparsed fold_define_prop_reparsed rr reparsed_twice)
    ultimately show ?thesis by simp
  qed
  have again: "define_prop ''mcpServers'' (JObj ?S) ?T = ?T"
    using kT by (rule define_prop_present) (simp add: map_of_define_prop)
  have "reparsed (merge_literal (JObj ?T) (Some (JObj ?S)) ns) = JObj ?T"
    unfolding reparsed_merge_literal S2 T2 again ..
  then show ?thesis
    unfolding first rS .
qed

lemma merge_literal_empty:
  assumes "key_order (map fst servers)"
  shows "merge_literal empty_config (Some (JObj [])) (Some (JObj servers)) =
         JObj [(''mcpServers'', JObj servers)]"
  using assms fold_define_prop_ordered [of "[]" servers]
  by (simp add: merge_literal_def empty_config_def spread_def)

lemma install_config:
  "JObj (spread (Some (getDefaultConfig pf apiKey)) []) = getDefaultConfig pf apiKey"
  by (simp add: getDefaultConfig_def spread_def Let_def)

lemma install_eq: "install e client apiKey w = writeConfig e client (getDefaultConfig (platform e) apiKey) w"
  by (simp add: install_def install_config)

lemma not_index_args: "array_index ''args'' = None"
  by (simp add: array_index_def is_digit_def)

lemma js_value_getDefaultConfig: "js_value (getDefaultConfig pf apiKey)"
  by (simp add: getDefaultConfig_def createPlatformCommand_def createMagicArgs_def Let_def
      key_order_def goes_before_def not_index_args)

lemma reparsed_strings: "reparsed (JArr (map JStr xs)) = JArr (map JStr xs)"
  by (induction xs) auto

lemma reparsed_getDefaultConfig: "reparsed (getDefaultConfig pf apiKey) = getDefaultConfig pf apiKey"
  by (simp add: getDefaultConfig_def createPlatformCommand_def createMagicArgs_def Let_def)

section \<open>What the calls do to the disk\<close>

lemma same_disk_refl: "same_disk w w"
  by (simp add: same_disk_def)

lemma same_disk_sym: "same_disk w w' \<Longrightarrow> same_disk w' w"
  by (simp add: same_disk_def)

lemma same_disk_trans: "same_disk a b \<Longrightarrow> same_disk b c \<Longrightarrow> same_disk a c"
  by (simp add: same_disk_def)

lemma same_disk_existing: "same_disk w w' \<Longrightarrow> existing_config w p = existing_config w' p"
  by (simp add: same_disk_def existing_config_def)

subsection \<open>Lines 84 to 86\<close>

lemma ensure_directory_ok:
  "fst (ensure_directory d w) = Inr () \<longleftrightarrow>
   fst (existsSync d w) \<or> (MkdirSync d \<notin> denied w \<and> (\<forall>q \<in> set (prefixes d). files w q = None))"
  by (auto simp: ensure_directory_def existsSync_def mkdirSync_def)

lemma ensure_directory_error:
  "fst (ensure_directory d w) = Inl err \<Longrightarrow> err = SystemError (MkdirSync d)"
  by (auto simp: ensure_directory_def existsSync_def mkdirSync_def split: if_splits)

lemma ensure_directory_failure:
  "fst (ensure_directory d w) = Inl err \<Longrightarrow> same_disk (snd (ensure_directory d w)) w"
  by (auto simp: ensure_directory_def existsSync_def mkdirSync_def same_disk_def split: if_splits)

lemma files_ensure_directory: "files (snd (ensure_directory d w)) = files w"
  by (simp add: ensure_directory_def existsSync_def mkdirSync_def)

lemma denied_ensure_directory: "denied (snd (ensure_directory d w)) = denied w"
  by (simp add: ensure_directory_def existsSync_def mkdirSync_def)

lemma dirs_ensure_directory:
  "dirs (snd (ensure_directory d w)) =
     (if fst (ensure_directory d w) = Inr () \<and> \<not> fst (existsSync d w)
      then dirs w \<union> set (prefixes d) else dirs w)"
  by (auto simp: ensure_directory_def existsSync_def mkdirSync_def)

lemma calls_ensure_directory:
  "calls (snd (ensure_directory d w)) =
     calls w @ ExistsSync d # (if fst (existsSync d w) then [] else [MkdirSync d])"
  by (simp add: ensure_directory_def existsSync_def mkdirSync_def)

lemma ensure_directory_cong:
  assumes "same_disk w w'"
  shows "fst (ensure_directory d w) = fst (ensure_directory d w')"
    and "same_disk (snd (ensure_directory d w)) (snd (ensure_directory d w'))"
  using assms
  by (simp_all add: ensure_directory_def existsSync_def mkdirSync_def same_disk_def)

lemma ensure_directory_again:
  assumes "fst (ensure_directory d w) = Inr ()"
  shows "fst (ensure_directory d (snd (ensure_directory d w))) = Inr ()"
    and "same_disk (snd (ensure_directory d (snd (ensure_directory d w)))) (snd (ensure_directory d w))"
proof -
  let ?v = "snd (ensure_directory d w)"
  have f: "files ?v = files w" and n: "denied ?v = denied w"
    by (rule files_ensure_directory, rule denied_ensure_directory)
  have sub: "dirs w \<subseteq> dirs ?v"
    by (auto simp: dirs_ensure_directory)
  have made: "set (prefixes d) \<subseteq> dirs ?v" if "\<not> fst (existsSync d w)"
    using that assms by (simp add: dirs_ensure_directory)
  show ok: "fst (ensure_directory d ?v) = Inr ()"
    using assms sub unfolding ensure_directory_ok
    by (auto simp: existsSync_def f n)
  have "dirs (snd (ensure_directory d ?v)) = dirs ?v"
  proof (cases "fst (existsSync d w)")
    case True
    then have "fst (existsSync d ?v)"
      using sub by (auto simp: existsSync_def f n)
    then show ?thesis by (simp add: dirs_ensure_directory)
  next
    case False
    from made [OF False] show ?thesis
      by (auto simp: dirs_ensure_directory)
  qed
  then show "same_disk (snd (ensure_directory d ?v)) ?v"
    by (simp add: same_disk_def files_ensure_directory denied_ensure_directory)
qed

subsection \<open>Lines 87 to 106\<close>

lemma fst_load_existing: "fst (load_existing p w) = existing_config w p"
  by (auto simp: load_existing_def existing_config_def existsSync_def readFileSync_def
      split: option.splits content.splits)

lemma same_disk_load_existing: "same_disk (snd (load_existing p w)) w"
  by (auto simp: load_existing_def existsSync_def readFileSync_def same_disk_def
      split: option.splits content.splits)

lemma fst_merge_and_write:
  "fst (merge_and_write p config w) =
     (case get_mcpServers config of
        Inl err \<Rightarrow> Inl err
      | Inr newServers \<Rightarrow>
          if \<not> truthy newServers \<or> typeof newServers \<noteq> ''object'' then Inl InvalidConfig
          else
            (case get_mcpServers (existing_config w p) of
               Inl err \<Rightarrow> Inl err
             | Inr existingServers \<Rightarrow>
                 if WriteFileSync p \<in> denied w \<or> p \<in> dirs w \<or> butlast p \<notin> dirs w
                 then Inl (SystemError (WriteFileSync p)) else Inr ()))"
  using same_disk_load_existing [of p w]
  by (simp add: merge_and_write_def case_prod_beta fst_load_existing writeFileSync_def same_disk_def
      split: sum.splits)

lemma files_merge_and_write:
  "files (snd (merge_and_write p config w)) =
     (case get_mcpServers config of
        Inl err \<Rightarrow> files w
      | Inr newServers \<Rightarrow>
          (case get_mcpServers (existing_config w p) of
             Inl err \<Rightarrow> files w
           | Inr existingServers \<Rightarrow>
               if fst (merge_and_write p config w) = Inr ()
               then (files w)(p \<mapsto>
                      JSON_stringify (merge_literal (existing_config w p) existingServers newServers))
               else files w))"
  using same_disk_load_existing [of p w]
  by (simp add: merge_and_write_def case_prod_beta fst_load_existing writeFileSync_def same_disk_def
      split: sum.splits)

lemma dirs_merge_and_write: "dirs (snd (merge_and_write p config w)) = dirs w"
  using same_disk_load_existing [of p w]
  by (simp add: merge_and_write_def case_prod_beta writeFileSync_def same_disk_def split: sum.splits)

lemma denied_merge_and_write: "denied (snd (merge_and_write p config w)) = denied w"
  using same_disk_load_existing [of p w]
  by (simp add: merge_and_write_def case_prod_beta writeFileSync_def same_disk_def split: sum.splits)

lemma merge_and_write_failure:
  "fst (merge_and_write p config w) = Inl err \<Longrightarrow> same_disk (snd (merge_and_write p config w)) w"
  by (auto simp: same_disk_def files_merge_and_write dirs_merge_and_write denied_merge_and_write
      split: sum.splits)

lemma merge_and_write_cong:
  assumes "same_disk w w'"
  shows "fst (merge_and_write p config w) = fst (merge_and_write p config w')"
proof -
  from assms have a: "denied w = denied w'" "dirs w = dirs w'"
    by (simp_all add: same_disk_def)
  show ?thesis
    unfolding fst_merge_and_write a same_disk_existing [OF assms, of p] ..
qed

subsection \<open>\<^verbatim>\<open>writeConfig\<close>\<close>

lemma writeConfig_PathString:
  assumes "getConfigPath e client = Inr (PathString p)"
  shows "writeConfig e client config w =
     (if fst (ensure_directory (butlast p) w) = Inr ()
      then merge_and_write p config (snd (ensure_directory (butlast p) w))
      else (Inl (SystemError (MkdirSync (butlast p))), snd (ensure_directory (butlast p) w)))"
proof (cases "ensure_directory (butlast p) w")
  case (Pair r v)
  show ?thesis
  proof (cases r)
    case (Inl err)
    with Pair ensure_directory_error [of "butlast p" w err] assms show ?thesis
      by (simp add: writeConfig_def)
  next
    case (Inr u)
    with Pair assms show ?thesis
      by (simp add: writeConfig_def)
  qed
qed

lemma writeConfig_failure_files:
  assumes "fst (writeConfig e client config w) = Inl err"
  shows "files (snd (writeConfig e client config w)) = files w"
proof (cases "getConfigPath e client")
  case (Inl a)
  then show ?thesis by (simp add: writeConfig_def)
next
  case (Inr cp)
  show ?thesis
  proof (cases cp)
    case (PrototypeMember m)
    with Inr show ?thesis by (simp add: writeConfig_def)
  next
    case (PathString p)
    with Inr have p: "getConfigPath e client = Inr (PathString p)" by simp
    show ?thesis
    proof (cases "fst (ensure_directory (butlast p) w) = Inr ()")
      case True
      with assms have "fst (merge_and_write p config (snd (ensure_directory (butlast p) w))) = Inl err"
        by (simp add: writeConfig_PathString [OF p])
      from merge_and_write_failure [OF this] True show ?thesis
        by (simp add: writeConfig_PathString [OF p] same_disk_def files_ensure_directory)
    next
      case False
      then show ?thesis
        by (simp add: writeConfig_PathString [OF p] files_ensure_directory)
    qed
  qed
qed

text \<open>On a disk where the file can be written, the directory is there after lines 84 to 86.\<close>

lemma writable_ensure_directory:
  assumes "writable p w" and "p \<noteq> []"
  shows "fst (ensure_directory (butlast p) w) = Inr ()"
    and "butlast p \<in> dirs (snd (ensure_directory (butlast p) w))"
    and "p \<notin> dirs (snd (ensure_directory (butlast p) w))"
proof -
  have np: "p \<notin> set (prefixes (butlast p))"
  proof
    assume "p \<in> set (prefixes (butlast p))"
    then have "prefix p (butlast p)"
      by simp
    then have "length p \<le> length (butlast p)"
      by (rule prefix_length_le)
    moreover have "length (butlast p) = length p - 1"
      by (rule length_butlast)
    moreover have "length p \<noteq> 0"
      using assms(2) by simp
    ultimately show False by arith
  qed
  show ok: "fst (ensure_directory (butlast p) w) = Inr ()"
    using assms(1) unfolding ensure_directory_ok
    by (auto simp: writable_def existsSync_def list_all_iff)
  show "butlast p \<in> dirs (snd (ensure_directory (butlast p) w))"
    using assms(1) ok
    by (auto simp: dirs_ensure_directory writable_def existsSync_def list_all_iff)
  show "p \<notin> dirs (snd (ensure_directory (butlast p) w))"
    using assms(1) np by (auto simp: dirs_ensure_directory writable_def)
qed

lemma writable_writeConfig:
  assumes "getConfigPath e client = Inr (PathString p)" and "p \<noteq> []" and "writable p w"
    and "get_mcpServers config = Inr newServers" and "truthy newServers" and "typeof newServers = ''object''"
    and "get_mcpServers (existing_config w p) = Inr existingServers"
  shows "fst (writeConfig e client config w) = Inr ()"
    and "files (snd (writeConfig e client config w)) =
           (files w)(p \<mapsto> JSON_stringify (merge_literal (existing_config w p) existingServers newServers))"
    and "butlast p \<in> dirs (snd (writeConfig e client config w))"
proof -
  let ?v = "snd (ensure_directory (butlast p) w)"
  note d = writable_ensure_directory [OF assms(3) assms(2)]
  have x: "existing_config ?v p = existing_config w p"
    by (simp add: existing_config_def files_ensure_directory denied_ensure_directory)
  have n: "WriteFileSync p \<notin> denied ?v"
    using assms(3) by (simp add: denied_ensure_directory writable_def)
  show ok: "fst (writeConfig e client config w) = Inr ()"
    using d n assms(4-7)
    by (simp add: writeConfig_PathString [OF assms(1)] fst_merge_and_write x)
  then have "fst (merge_and_write p config ?v) = Inr ()"
    using d(1) by (simp add: writeConfig_PathString [OF assms(1)])
  then show "files (snd (writeConfig e client config w)) =
           (files w)(p \<mapsto> JSON_stringify (merge_literal (existing_config w p) existingServers newServers))"
    using d(1) assms(4,7)
    by (simp add: writeConfig_PathString [OF assms(1)] files_merge_and_write x files_ensure_directory)
  show "butlast p \<in> dirs (snd (writeConfig e client config w))"
    using d by (simp add: writeConfig_PathString [OF assms(1)] dirs_merge_and_write)
qed

section \<open>Installing into a client's configuration\<close>

lemmas run_defs =
  install_def writeConfig_def getConfigPath_def clientPaths_get_def clientPaths_def baseDir_def
  vscodePath_def or_else_def ensure_directory_def existsSync_def mkdirSync_def readFileSync_def
  writeFileSync_def load_existing_def empty_config_def merge_literal_def merge_and_write_def
  JSON_stringify_def spread_def getDefaultConfig_def createMagicArgs_def createPlatformCommand_def
  goes_before_def array_index_def is_digit_def key_order_def Let_def






lemma cursor_client: "map_of (clientPaths linux_env) ''cursor'' = Some cursor_path"
  by (simp add: clientPaths_def linux_env_def cursor_path_def)




lemma writable_world_with: "writable cursor_path (world_with c)"
  by (simp add: writable_def world_with_def cursor_path_def)

lemma writable_empty_world: "writable cursor_path empty_world"
  by (simp add: writable_def empty_world_def cursor_path_def)

lemma servers_of_default_config:
  "get_mcpServers (getDefaultConfig Linux (Some ''abc123'')) =
     Inr (Some (JObj [(''@gridly-dev/magic'',
       JObj [(''command'', JStr ''npx''),
             (''args'', JArr [JStr ''-y'', JStr ''@gridly-dev/magic@latest'',
                              JStr (''API_KEY='' @ [CHR 0x22] @ ''abc123'' @ [CHR 0x22])])])]))"
  by (simp add: getDefaultConfig_def createMagicArgs_def createPlatformCommand_def)



lemma writeConfig_success:
  assumes "getConfigPath e client = Inr (PathString p)"
    and "fst (writeConfig e client config w) = Inr ()"
  shows "\<exists>newServers existingServers.
           get_mcpServers config = Inr newServers \<and>
           get_mcpServers (existing_config w p) = Inr existingServers \<and>
           files (snd (writeConfig e client config w)) =
             (files w)(p \<mapsto> JSON_stringify (merge_literal (existing_config w p) existingServers newServers)) \<and>
           denied (snd (writeConfig e client config w)) = denied w"
proof -
  let ?v = "snd (ensure_directory (butlast p) w)"
  have d: "fst (ensure_directory (butlast p) w) = Inr ()"
    using assms(2) by (auto simp: writeConfig_PathString [OF assms(1)] split: if_splits)
  then have run: "writeConfig e client config w = merge_and_write p config ?v"
    by (simp add: writeConfig_PathString [OF assms(1)])
  have x: "existing_config ?v p = existing_config w p"
    by (simp add: existing_config_def files_ensure_directory denied_ensure_directory)
  have m: "fst (merge_and_write p config ?v) = Inr ()"
    using assms(2) run by simp
  obtain newServers where n: "get_mcpServers config = Inr newServers"
    using m by (cases "get_mcpServers config") (simp_all add: fst_merge_and_write)
  obtain existingServers where o: "get_mcpServers (existing_config w p) = Inr existingServers"
    using m n by (cases "get_mcpServers (existing_config w p)")
      (simp_all add: fst_merge_and_write x split: if_splits)
  have "files (snd (writeConfig e client config w)) =
      (files w)(p \<mapsto> JSON_stringify (merge_literal (existing_config w p) existingServers newServers))"
    using m by (simp add: run files_merge_and_write n o x files_ensure_directory)
  moreover have "denied (snd (writeConfig e client config w)) = denied w"
    by (simp add: run denied_merge_and_write denied_ensure_directory)
  ultimately show ?thesis
    using n o by blast
qed

lemma writeConfig_fails_again:
  assumes "getConfigPath e client = Inr (PathString p)"
    and "fst (writeConfig e client config w) = Inl err"
  shows "fst (writeConfig e client config (snd (writeConfig e client config w))) \<noteq> Inr ()"
proof (cases "fst (ensure_directory (butlast p) w) = Inr ()")
  case False
  then obtain err' where f: "fst (ensure_directory (butlast p) w) = Inl err'"
    by (cases "fst (ensure_directory (butlast p) w)") auto
  let ?w1 = "snd (ensure_directory (butlast p) w)"
  have w1: "snd (writeConfig e client config w) = ?w1"
    using False by (simp add: writeConfig_PathString [OF assms(1)])
  have "same_disk ?w1 w"
    using f by (rule ensure_directory_failure)
  then have "fst (ensure_directory (butlast p) ?w1) = fst (ensure_directory (butlast p) w)"
    by (rule ensure_directory_cong)
  with False show ?thesis
    by (simp add: w1 writeConfig_PathString [OF assms(1)])
next
  case True
  let ?v = "snd (ensure_directory (butlast p) w)"
  let ?w1 = "snd (merge_and_write p config ?v)"
  have run: "writeConfig e client config w = merge_and_write p config ?v"
    using True by (simp add: writeConfig_PathString [OF assms(1)])
  have m: "fst (merge_and_write p config ?v) = Inl err"
    using assms(2) run by simp
  have s: "same_disk ?w1 ?v"
    using m by (rule merge_and_write_failure)
  have ok: "fst (ensure_directory (butlast p) ?w1) = Inr ()"
    using ensure_directory_cong(1) [OF s, of "butlast p"] ensure_directory_again(1) [OF True] by simp
  have "same_disk (snd (ensure_directory (butlast p) ?w1)) (snd (ensure_directory (butlast p) ?v))"
    using s by (rule ensure_directory_cong)
  then have "same_disk (snd (ensure_directory (butlast p) ?w1)) ?v"
    using ensure_directory_again(2) [OF True] by (rule same_disk_trans)
  then have "fst (merge_and_write p config (snd (ensure_directory (butlast p) ?w1))) =
      fst (merge_and_write p config ?v)"
    by (rule merge_and_write_cong)
  with m have again: "fst (merge_and_write p config (snd (ensure_directory (butlast p) ?w1))) = Inl err"
    by simp
  have w1: "snd (writeConfig e client config w) = ?w1"
    by (simp add: run)
  have "fst (writeConfig e client config ?w1) = Inl err"
    using ok again by (simp add: writeConfig_PathString [OF assms(1), of config ?w1])
  then show ?thesis
    unfolding w1 by simp
qed

lemma get_mcpServers_reparsed_merge_literal:
  "get_mcpServers (reparsed (merge_literal x es ns)) =
     Inr (Some (JObj (map (map_prod id reparsed) (spread ns (spread es [])))))"
  by (simp add: merge_literal_def map_of_reparsed map_of_define_prop)

text \<open>
  C2. Two calls in a row with the same client and the same configuration, a JavaScript
  value: the second leaves every file as the first left it. The same holds for the
  command \<^verbatim>\<open>install\<close> with the same key.
\<close>

theorem install_twice_same_files:
  assumes "js_value config"
  shows "files (snd (writeConfig e client config (snd (writeConfig e client config w)))) =
         files (snd (writeConfig e client config w)) \<and>
         files (snd (install e client apiKey (snd (install e client apiKey w)))) =
         files (snd (install e client apiKey w))"
proof -
  have twice: "files (snd (writeConfig e client c (snd (writeConfig e client c w)))) =
               files (snd (writeConfig e client c w))" if c: "js_value c" for c
  proof (cases "getConfigPath e client")
    case (Inl err)
    then show ?thesis by (simp add: writeConfig_def)
  next
    case (Inr cp)
    show ?thesis
    proof (cases cp)
      case (PrototypeMember m)
      with Inr show ?thesis by (simp add: writeConfig_def)
    next
      case (PathString p)
      with Inr have p: "getConfigPath e client = Inr (PathString p)" by simp
      let ?w1 = "snd (writeConfig e client c w)"
      show ?thesis
      proof (cases "fst (writeConfig e client c ?w1)")
        case (Inl err)
        then show ?thesis by (rule writeConfig_failure_files)
      next
        case second: (Inr u)
        then have second: "fst (writeConfig e client c ?w1) = Inr ()" by simp
        have first: "fst (writeConfig e client c w) = Inr ()"
        proof (cases "fst (writeConfig e client c w)")
          case (Inl err)
          from writeConfig_fails_again [OF p this] second show ?thesis by simp
        next
          case (Inr u)
          then show ?thesis by simp
        qed
        from writeConfig_success [OF p first] obtain ns es where
          ns: "get_mcpServers c = Inr ns"
          and es: "get_mcpServers (existing_config w p) = Inr es"
          and f1: "files ?w1 = (files w)(p \<mapsto> JSON_stringify (merge_literal (existing_config w p) es ns))"
          and n1: "denied ?w1 = denied w"
          by blast
        from writeConfig_success [OF p second] ns obtain es' where
          es': "get_mcpServers (existing_config ?w1 p) = Inr es'"
          and f2: "files (snd (writeConfig e client c ?w1)) =
              (files ?w1)(p \<mapsto> JSON_stringify (merge_literal (existing_config ?w1 p) es' ns))"
          by auto
        have d: "distinct (map fst (own_props ns))"
          using c ns by (rule servers_distinct)
        have "JSON_stringify (merge_literal (existing_config ?w1 p) es' ns) =
            JSON_stringify (merge_literal (existing_config w p) es ns)"
        proof (cases "ExistsSync p \<in> denied w \<or> ReadFileSync p \<in> denied w")
          case True
          then have "existing_config ?w1 p = empty_config" "existing_config w p = empty_config"
            by (simp_all add: existing_config_def n1)
          with es es' show ?thesis by simp
        next
          case False
          then have x: "existing_config ?w1 p = reparsed (merge_literal (existing_config w p) es ns)"
            by (simp add: existing_config_def n1 f1 JSON_stringify_def)
          from es' have "es' = Some (JObj (map (map_prod id reparsed) (spread ns (spread es []))))"
            by (simp add: x get_mcpServers_reparsed_merge_literal)
          then show ?thesis
            by (simp add: JSON_stringify_def x merge_literal_again [OF d])
        qed
        then show ?thesis
          by (simp add: f2 f1)
      qed
    qed
  qed
  from twice [OF assms] twice [OF js_value_getDefaultConfig] show ?thesis
    by (simp add: install_eq)
qed

lemma install_foreign_world:
  "fst (writeConfig linux_env ''cursor'' (getDefaultConfig Linux (Some ''abc123'')) foreign_world) = Inr ()"
  by (simp add: run_defs linux_env_def foreign_world_def world_with_def cursor_path_def
      foreign_document_def)

theorem install_twice_same_files_witness:
  "js_value (getDefaultConfig Linux (Some ''abc123'')) \<and>
   fst (writeConfig linux_env ''cursor'' (getDefaultConfig Linux (Some ''abc123'')) foreign_world) = Inr () \<and>
   files (snd (writeConfig linux_env ''cursor'' (getDefaultConfig Linux (Some ''abc123''))
            (snd (writeConfig linux_env ''cursor'' (getDefaultConfig Linux (Some ''abc123'')) foreign_world)))) =
   files (snd (writeConfig linux_env ''cursor'' (getDefaultConfig Linux (Some ''abc123'')) foreign_world))"
  using install_twice_same_files
      [OF js_value_getDefaultConfig [of Linux "Some ''abc123''"],
       where e = linux_env and client = "''cursor''" and w = foreign_world]
    js_value_getDefaultConfig [of Linux "Some ''abc123''"] install_foreign_world
  by simp

text \<open>
  C9. After a call that succeeds, the file of the client holds an object whose property
  \<^verbatim>\<open>mcpServers\<close> is an object. And the call does succeed, with that result, for every client
  of the table, every configuration whose \<^verbatim>\<open>mcpServers\<close> is an object, and every disk on which
  the file can be written, whatever the file held before (nothing, a text that does not
  parse, a document with any or no \<^verbatim>\<open>mcpServers\<close>), the one JSON text \<^verbatim>\<open>null\<close> apart.
\<close>

theorem written_document_has_servers:
  "(fst (writeConfig e client config w) = Inr () \<longrightarrow>
      (\<exists>q document servers.
         getConfigPath e client = Inr (PathString q) \<and>
         files (snd (writeConfig e client config w)) q = Some (JsonText (JObj document)) \<and>
         map_of document ''mcpServers'' = Some (JObj servers))) \<and>
   (map_of (clientPaths e) client = Some p \<and>
    get_mcpServers config = Inr (Some (JObj newServers)) \<and>
    writable p w \<and> files w p \<noteq> Some (JsonText JNull) \<longrightarrow>
      fst (writeConfig e client config w) = Inr () \<and>
      (\<exists>document servers.
         files (snd (writeConfig e client config w)) p = Some (JsonText (JObj document)) \<and>
         map_of document ''mcpServers'' = Some (JObj servers)))"
proof (intro conjI impI)
  assume ok: "fst (writeConfig e client config w) = Inr ()"
  obtain q where q: "getConfigPath e client = Inr (PathString q)"
  proof (cases "getConfigPath e client")
    case (Inl err)
    with ok show ?thesis by (simp add: writeConfig_def)
  next
    case (Inr cp)
    with ok that show ?thesis by (cases cp) (simp_all add: writeConfig_def)
  qed
  from writeConfig_success [OF q ok] obtain ns es where
    "files (snd (writeConfig e client config w)) =
       (files w)(q \<mapsto> JSON_stringify (merge_literal (existing_config w q) es ns))"
    by blast
  then have "files (snd (writeConfig e client config w)) q =
      Some (JsonText (JObj (define_prop ''mcpServers''
           (JObj (fold (\<lambda>(k, x). define_prop k x) (map (map_prod id reparsed) (own_props ns))
                    (map (map_prod id reparsed) (spread es []))))
           (map (map_prod id reparsed) (spread (Some (existing_config w q)) [])))))"
    by (simp add: JSON_stringify_def reparsed_merge_literal)
  with q show "\<exists>q document servers.
         getConfigPath e client = Inr (PathString q) \<and>
         files (snd (writeConfig e client config w)) q = Some (JsonText (JObj document)) \<and>
         map_of document ''mcpServers'' = Some (JObj servers)"
    by (metis map_of_define_prop fun_upd_same)
next
  assume a: "map_of (clientPaths e) client = Some p \<and>
    get_mcpServers config = Inr (Some (JObj newServers)) \<and>
    writable p w \<and> files w p \<noteq> Some (JsonText JNull)"
  then have p: "getConfigPath e client = Inr (PathString p)"
    by (simp add: getConfigPath_valid)
  have "existing_config w p \<noteq> JNull"
    using a by (auto simp: existing_config_def empty_config_def split: option.splits content.splits)
  then obtain es where es: "get_mcpServers (existing_config w p) = Inr es"
    by (cases "existing_config w p") simp_all
  have n: "get_mcpServers config = Inr (Some (JObj newServers))" and wr: "writable p w"
    using a by simp_all
  have r: "p \<noteq> []"
    using a client_path_not_root [of e client p] by simp
  note run = writable_writeConfig [OF p r wr n _ _ es]
  show ok: "fst (writeConfig e client config w) = Inr ()"
    by (rule run(1)) simp_all
  have "files (snd (writeConfig e client config w)) p =
      Some (JsonText (JObj (define_prop ''mcpServers''
           (JObj (fold (\<lambda>(k, x). define_prop k x) (map (map_prod id reparsed) newServers)
                    (map (map_prod id reparsed) (spread es []))))
           (map (map_prod id reparsed) (spread (Some (existing_config w p)) [])))))"
    using run(2) by (simp add: JSON_stringify_def reparsed_merge_literal)
  then show "\<exists>document servers.
         files (snd (writeConfig e client config w)) p = Some (JsonText (JObj document)) \<and>
         map_of document ''mcpServers'' = Some (JObj servers)"
    by (metis map_of_define_prop fun_upd_same)
qed

theorem written_document_has_servers_witness:
  "files null_servers_world cursor_path =
     Some (JsonText (JObj [(''mcpServers'', JNull), (''theme'', JStr ''dark'')])) \<and>
   fst (writeConfig linux_env ''cursor'' (getDefaultConfig Linux (Some ''abc123'')) null_servers_world) = Inr () \<and>
   (\<exists>document servers.
      files (snd (writeConfig linux_env ''cursor'' (getDefaultConfig Linux (Some ''abc123'')) null_servers_world))
        cursor_path = Some (JsonText (JObj document)) \<and>
      map_of document ''mcpServers'' = Some (JObj servers)) \<and>
   files empty_world cursor_path = None \<and>
   fst (writeConfig linux_env ''cursor'' (getDefaultConfig Linux (Some ''abc123'')) empty_world) = Inr () \<and>
   (\<exists>document servers.
      files (snd (writeConfig linux_env ''cursor'' (getDefaultConfig Linux (Some ''abc123'')) empty_world))
        cursor_path = Some (JsonText (JObj document)) \<and>
      map_of document ''mcpServers'' = Some (JObj servers))"
proof -
  have f: "files null_servers_world cursor_path =
     Some (JsonText (JObj [(''mcpServers'', JNull), (''theme'', JStr ''dark'')]))"
    by (simp add: null_servers_world_def world_with_def)
  have g: "files empty_world cursor_path = None"
    by (simp add: empty_world_def)
  have w: "writable cursor_path null_servers_world"
    unfolding null_servers_world_def by (rule writable_world_with)
  from written_document_has_servers
      [of linux_env "''cursor''" "getDefaultConfig Linux (Some ''abc123'')" null_servers_world cursor_path]
    written_document_has_servers
      [of linux_env "''cursor''" "getDefaultConfig Linux (Some ''abc123'')" empty_world cursor_path]
    cursor_client servers_of_default_config w writable_empty_world f g
  show ?thesis by simp
qed

text \<open>
  A file that holds the JSON text \<^verbatim>\<open>null\<close> parses; \<^verbatim>\<open>existingConfig.mcpServers\<close> then throws
  outside the \<^verbatim>\<open>try\<close> block, and nothing is written.
\<close>

lemma null_document_is_fatal:
  assumes "map_of (clientPaths e) client = Some p"
    and "files w p = Some (JsonText JNull)"
    and "writable p w"
    and "get_mcpServers config = Inr (Some (JObj servers))"
  shows "fst (writeConfig e client config w) = Inl TypeError"
    and "files (snd (writeConfig e client config w)) = files w"
proof -
  have p: "getConfigPath e client = Inr (PathString p)"
    using assms(1) by (rule getConfigPath_valid)
  let ?v = "snd (ensure_directory (butlast p) w)"
  have x: "existing_config ?v p = JNull"
    using assms(2,3)
    by (simp add: existing_config_def writable_def files_ensure_directory denied_ensure_directory)
  show "fst (writeConfig e client config w) = Inl TypeError"
    using writable_ensure_directory(1) [OF assms(3) client_path_not_root [OF assms(1)]] assms(4)
    by (simp add: writeConfig_PathString [OF p] fst_merge_and_write x)
  then show "files (snd (writeConfig e client config w)) = files w"
    by (rule writeConfig_failure_files)
qed

lemma readConfig_missing_or_corrupt:
  assumes "map_of (clientPaths e) client = Some p"
    and "files w p = None \<or> (\<exists>s. files w p = Some (Malformed s))"
  shows "fst (readConfig e client w) = Inr empty_config"
  using assms
  by (auto simp: readConfig_def getConfigPath_valid existsSync_def readFileSync_def)

text \<open>
  C4. The client is one of the table; there is no file at its path, or the file there
  does not parse; and the file can be written. A configuration whose \<^verbatim>\<open>mcpServers\<close> is an
  object with the properties \<open>servers\<close> is then installed with success: the directory of
  the file is there afterwards, and the file holds the object whose only property is
  \<^verbatim>\<open>mcpServers\<close>, with exactly \<open>servers\<close>, as printed. For the command \<^verbatim>\<open>install\<close> the file holds
  the default configuration. No other file changes.
\<close>

theorem missing_or_corrupt_file_recovery:
  assumes "map_of (clientPaths e) client = Some p"
    and "files w p = None \<or> (\<exists>s. files w p = Some (Malformed s))"
    and "get_mcpServers config = Inr (Some (JObj servers))"
    and "key_order (map fst servers)"
    and "writable p w"
  shows "fst (writeConfig e client config w) = Inr () \<and>
         files (snd (writeConfig e client config w)) =
           (files w)(p \<mapsto> JsonText (JObj [(''mcpServers'', JObj (map (map_prod id reparsed) servers))])) \<and>
         butlast p \<in> dirs (snd (writeConfig e client config w)) \<and>
         fst (install e client apiKey w) = Inr () \<and>
         files (snd (install e client apiKey w)) =
           (files w)(p \<mapsto> JsonText (getDefaultConfig (platform e) apiKey)) \<and>
         butlast p \<in> dirs (snd (install e client apiKey w))"
proof -
  have p: "getConfigPath e client = Inr (PathString p)"
    using assms(1) by (rule getConfigPath_valid)
  have r: "p \<noteq> []"
    using assms(1) by (rule client_path_not_root)
  have x: "existing_config w p = empty_config"
    using assms(2) by (auto simp: existing_config_def)
  have s: "get_mcpServers (existing_config w p) = Inr (Some (JObj []))"
    by (simp add: x empty_config_def)
  have written: "fst (writeConfig e client c w) = Inr () \<and>
      files (snd (writeConfig e client c w)) =
        (files w)(p \<mapsto> JsonText (reparsed (JObj [(''mcpServers'', JObj ss)]))) \<and>
      butlast p \<in> dirs (snd (writeConfig e client c w))"
    if c: "get_mcpServers c = Inr (Some (JObj ss))" and k: "key_order (map fst ss)" for c ss
  proof -
    note run = writable_writeConfig [OF p r assms(5) c _ _ s]
    have "fst (writeConfig e client c w) = Inr ()"
      by (rule run(1)) simp_all
    moreover have "files (snd (writeConfig e client c w)) =
        (files w)(p \<mapsto> JsonText (reparsed (JObj [(''mcpServers'', JObj ss)])))"
      using run(2) by (simp add: x merge_literal_empty [OF k] JSON_stringify_def)
    moreover have "butlast p \<in> dirs (snd (writeConfig e client c w))"
      by (rule run(3)) simp_all
    ultimately show ?thesis by simp
  qed
  have d: "getDefaultConfig (platform e) apiKey =
      JObj [(''mcpServers'', JObj [(''@gridly-dev/magic'',
        createPlatformCommand (platform e)
          (createMagicArgs (case apiKey of None \<Rightarrow> ''YOUR_API_KEY'' | Some k \<Rightarrow> k)))])]"
    by (simp add: getDefaultConfig_def)
  have c: "get_mcpServers (getDefaultConfig (platform e) apiKey) =
      Inr (Some (JObj [(''@gridly-dev/magic'',
        createPlatformCommand (platform e)
          (createMagicArgs (case apiKey of None \<Rightarrow> ''YOUR_API_KEY'' | Some k \<Rightarrow> k)))]))"
    by (simp add: d)
  have "fst (writeConfig e client (getDefaultConfig (platform e) apiKey) w) = Inr () \<and>
      files (snd (writeConfig e client (getDefaultConfig (platform e) apiKey) w)) =
        (files w)(p \<mapsto> JsonText (reparsed (getDefaultConfig (platform e) apiKey))) \<and>
      butlast p \<in> dirs (snd (writeConfig e client (getDefaultConfig (platform e) apiKey) w))"
    using written [OF c] by (simp add: d [symmetric] key_order_def)
  then have i: "fst (install e client apiKey w) = Inr () \<and>
      files (snd (install e client apiKey w)) = (files w)(p \<mapsto> JsonText (getDefaultConfig (platform e) apiKey)) \<and>
      butlast p \<in> dirs (snd (install e client apiKey w))"
    by (simp add: install_eq reparsed_getDefaultConfig)
  from written [OF assms(3) assms(4)] i show ?thesis by simp
qed

lemma no_file_corrupt_world:
  "files corrupt_world cursor_path = None \<or> (\<exists>s. files corrupt_world cursor_path = Some (Malformed s))"
  by (simp add: corrupt_world_def world_with_def)

lemma no_file_empty_world:
  "files empty_world cursor_path = None \<or> (\<exists>s. files empty_world cursor_path = Some (Malformed s))"
  by (simp add: empty_world_def)

theorem missing_or_corrupt_file_recovery_witness:
  "writable cursor_path corrupt_world \<and>
   fst (install linux_env ''cursor'' (Some ''abc123'') corrupt_world) = Inr () \<and>
   files (snd (install linux_env ''cursor'' (Some ''abc123'') corrupt_world)) cursor_path =
     Some (JsonText (JObj [(''mcpServers'', JObj [(''@gridly-dev/magic'',
       JObj [(''command'', JStr ''npx''),
             (''args'', JArr [JStr ''-y'', JStr ''@gridly-dev/magic@latest'',
                              JStr (''API_KEY='' @ [CHR 0x22] @ ''abc123'' @ [CHR 0x22])])])])])) \<and>
   writable cursor_path empty_world \<and>
   dirs empty_world = {} \<and>
   fst (writeConfig linux_env ''cursor'' (JObj [(''mcpServers'', JObj [(''s'', JNull)])]) empty_world) = Inr () \<and>
   files (snd (writeConfig linux_env ''cursor'' (JObj [(''mcpServers'', JObj [(''s'', JNull)])]) empty_world))
     cursor_path = Some (JsonText (JObj [(''mcpServers'', JObj [(''s'', JNull)])])) \<and>
   [''home'', ''u'', ''.cursor''] \<in>
     dirs (snd (writeConfig linux_env ''cursor'' (JObj [(''mcpServers'', JObj [(''s'', JNull)])]) empty_world))"
proof -
  have c: "get_mcpServers (JObj [(''mcpServers'', JObj [(''s'', JNull)])]) = Inr (Some (JObj [(''s'', JNull)]))"
    by simp
  have k: "key_order (map fst [(''s'', JNull)])"
    by (simp add: key_order_def)
  have w: "writable cursor_path corrupt_world"
    unfolding corrupt_world_def by (rule writable_world_with)
  from missing_or_corrupt_file_recovery [OF cursor_client no_file_corrupt_world c k w, of "Some ''abc123''"]
    missing_or_corrupt_file_recovery [OF cursor_client no_file_empty_world c k writable_empty_world, of None]
    w writable_empty_world
  show ?thesis
    by (simp add: linux_env_def getDefaultConfig_def createMagicArgs_def createPlatformCommand_def
        cursor_path_def empty_world_def)
qed

text \<open>
  C3. The client is one of the table and \<^verbatim>\<open>config.mcpServers\<close> is absent, \<^verbatim>\<open>null\<close> or a
  boolean, a number or a string. The call fails and no file is written or changed. Before
  the configuration is checked, the directory of the client's file is looked for and, when
  it is not found, created with its ancestors. When the directory is found or can be
  created, the failure is the invalid-configuration error; otherwise it is the error of
  \<^verbatim>\<open>mkdirSync\<close>.
\<close>

theorem invalid_config_writes_no_file:
  assumes "map_of (clientPaths e) client = Some p"
    and "get_mcpServers config = Inr m"
    and "\<forall>ps. m \<noteq> Some (JObj ps)" and "\<forall>xs. m \<noteq> Some (JArr xs)"
  shows "files (snd (writeConfig e client config w)) = files w \<and>
         (fst (existsSync (butlast p) w) \<or>
          MkdirSync (butlast p) \<notin> denied w \<and> list_all (\<lambda>q. files w q = None) (prefixes (butlast p)) \<longrightarrow>
            fst (writeConfig e client config w) = Inl InvalidConfig) \<and>
         (\<not> (fst (existsSync (butlast p) w) \<or>
             MkdirSync (butlast p) \<notin> denied w \<and> list_all (\<lambda>q. files w q = None) (prefixes (butlast p))) \<longrightarrow>
            fst (writeConfig e client config w) = Inl (SystemError (MkdirSync (butlast p)))) \<and>
         dirs (snd (writeConfig e client config w)) =
           (if \<not> fst (existsSync (butlast p) w) \<and> MkdirSync (butlast p) \<notin> denied w \<and>
               list_all (\<lambda>q. files w q = None) (prefixes (butlast p))
            then dirs w \<union> set (prefixes (butlast p)) else dirs w) \<and>
         calls (snd (writeConfig e client config w)) =
           calls w @ ExistsSync (butlast p) #
             (if fst (existsSync (butlast p) w) then [] else [MkdirSync (butlast p)])"
proof -
  have p: "getConfigPath e client = Inr (PathString p)"
    using assms(1) by (rule getConfigPath_valid)
  have "\<not> truthy m \<or> typeof m \<noteq> ''object''"
  proof (cases m)
    case None
    then show ?thesis by simp
  next
    case (Some v)
    with assms(3,4) show ?thesis by (cases v) simp_all
  qed
  then have m: "merge_and_write p config v = (Inl InvalidConfig, v)" for v
    using assms(2) by (auto simp: merge_and_write_def)
  have run: "writeConfig e client config w =
      (if fst (ensure_directory (butlast p) w) = Inr () then Inl InvalidConfig
       else Inl (SystemError (MkdirSync (butlast p))), snd (ensure_directory (butlast p) w))"
    by (simp add: writeConfig_PathString [OF p] m)
  show ?thesis
    unfolding run
    by (auto simp: files_ensure_directory dirs_ensure_directory calls_ensure_directory
        ensure_directory_ok list_all_iff)
qed

theorem invalid_config_writes_no_file_witness:
  "fst (writeConfig linux_env ''cursor'' (JObj [(''mcpServers'', JStr ''x'')]) foreign_world) = Inl InvalidConfig \<and>
   files (snd (writeConfig linux_env ''cursor'' (JObj [(''mcpServers'', JStr ''x'')]) foreign_world)) =
     files foreign_world \<and>
   dirs (snd (writeConfig linux_env ''cursor'' (JObj [(''mcpServers'', JStr ''x'')]) foreign_world)) =
     dirs foreign_world \<and>
   fst (writeConfig linux_env ''cursor'' (JObj []) empty_world) = Inl InvalidConfig \<and>
   files (snd (writeConfig linux_env ''cursor'' (JObj []) empty_world)) = files empty_world \<and>
   dirs (snd (writeConfig linux_env ''cursor'' (JObj []) empty_world)) =
     set (prefixes [''home'', ''u'', ''.cursor''])"
proof -
  have c: "get_mcpServers (JObj [(''mcpServers'', JStr ''x'')]) = Inr (Some (JStr ''x''))"
    by simp
  have n: "get_mcpServers (JObj []) = Inr None"
    by simp
  from invalid_config_writes_no_file [OF cursor_client c, of foreign_world]
    invalid_config_writes_no_file [OF cursor_client n, of empty_world]
  show ?thesis
    by (simp add: foreign_world_def world_with_def cursor_path_def empty_world_def existsSync_def)
qed

text \<open>
  The claim as it stands fails twice. On an empty disk the configuration without
  \<^verbatim>\<open>mcpServers\<close> is rejected, and the directories down to \<^verbatim>\<open>.cursor\<close> have been created by then.
  And an array, which is not a mapping of server names, slips through the check of
  \<^verbatim>\<open>typeof\<close>: the call succeeds and writes its elements under their indices.
\<close>

theorem invalid_config_creates_directory:
  "writeConfig linux_env ''cursor'' (JObj []) empty_world =
     (Inl InvalidConfig,
      \<lparr>files = Map.empty,
       dirs = {[], [''home''], [''home'', ''u''], [''home'', ''u'', ''.cursor'']},
       denied = {},
       calls = [ExistsSync [''home'', ''u'', ''.cursor''], MkdirSync [''home'', ''u'', ''.cursor'']]\<rparr>) \<and>
   dirs empty_world = {} \<and>
   fst (writeConfig linux_env ''cursor'' (JObj [(''mcpServers'', JArr [JStr ''x''])]) empty_world) = Inr () \<and>
   files (snd (writeConfig linux_env ''cursor'' (JObj [(''mcpServers'', JArr [JStr ''x''])]) empty_world))
     cursor_path = Some (JsonText (JObj [(''mcpServers'', JObj [(''0'', JStr ''x'')])]))"
  by (simp add: run_defs linux_env_def empty_world_def cursor_path_def insert_commute
      show_nat.simps digit_char_def)

section \<open>The manifest\<close>

lemma load_manifest_entries: "fst (load_manifest w) = stored_entries (manifest w)"
  by (simp add: load_manifest_def stored_entries_def split: manifest_file.splits)


lemma load_manifest_events:
  "events (snd (load_manifest w)) = events w @ (if manifest w = NoManifest then [] else [ReadManifest])"
  by (simp add: load_manifest_def split: manifest_file.splits)

lemma entry_key_mem:
  "entry_key newEntry \<in> set (map entry_key entries) \<longleftrightarrow>
   (\<exists>entry \<in> set entries. name entry = name newEntry \<and> sourceType entry = sourceType newEntry)"
  by (induction entries) (auto simp: entry_key_def)

lemma isDuplicate_iff:
  "isDuplicate entries newEntry \<longleftrightarrow> entry_key newEntry \<in> set (map entry_key entries)"
  unfolding entry_key_mem by (simp add: isDuplicate_def list_ex_iff)

lemma recordEntry_eq:
  "recordEntry newEntry w =
     (if entry_key newEntry \<in> set (map entry_key (stored_entries (manifest w)))
      then (AlreadyTracked, snd (load_manifest w))
      else (Added,
            (snd (load_manifest w))
              \<lparr>manifest := Manifest (stored_entries (manifest w) @ [newEntry]),
               events := events (snd (load_manifest w)) @ [WriteManifest]\<rparr>))"
  by (simp add: recordEntry_def case_prod_beta load_manifest_entries isDuplicate_iff)





section \<open>A run of the \<^verbatim>\<open>add\<close> command\<close>

lemma prepare_entry_events:
  "events (snd (prepare_entry c componentIdentifier w)) =
     events w @ (if isUrl c componentIdentifier then [Fetch componentIdentifier] else [])"
  by (simp add: prepare_entry_def Let_def split: sum.splits)

lemma prepare_entry_manifest: "manifest (snd (prepare_entry c componentIdentifier w)) = manifest w"
  by (simp add: prepare_entry_def Let_def split: sum.splits)

text \<open>
  C8. The identifier is an http or https URL and the fetch fails with a message. Then
  the entry that is prepared has the source type \<^verbatim>\<open>url_fetch_failed\<close>, the identifier as
  name and URL, and the message; the installer is the next thing that runs, with the
  identifier as it was given; and when the installer succeeds the run ends with the
  manifest update for that entry. Whenever the installer fails, the run leaves with a
  status other than \<open>0\<close>, the manifest file is as before, and it has been neither read
  nor written: the installer is the last event.
\<close>

theorem failed_fetch_still_installs:
  "(isUrl c componentIdentifier \<and> fetch_item (fetch c componentIdentifier) = Inl message \<longrightarrow>
      fst (prepare_entry c componentIdentifier w) =
        \<lparr>name = componentIdentifier, sourceUrl = Some componentIdentifier,
         sourceType = url_fetch_failed, registryItem = None, fetchError = Some message,
         addedByCLI = True\<rparr> \<and>
      take (length (events w) + 2) (events (snd (add_action c componentIdentifier install_option w))) =
        events w @ [Fetch componentIdentifier,
                    Exec (''npx '' @ (if install_option then ''-y'' else ''-y --no-install'') @
                          '' shadcn add '' @ componentIdentifier)] \<and>
      (execSync c (shadcnCommand install_option componentIdentifier) = ExecDone \<longrightarrow>
         add_action c componentIdentifier install_option w =
           (Completed (fst (recordEntry (fst (prepare_entry c componentIdentifier w))
                        (w\<lparr>events := events w @ [Fetch componentIdentifier,
                            Exec (shadcnCommand install_option componentIdentifier)]\<rparr>))),
            snd (recordEntry (fst (prepare_entry c componentIdentifier w))
                   (w\<lparr>events := events w @ [Fetch componentIdentifier,
                       Exec (shadcnCommand install_option componentIdentifier)]\<rparr>))))) \<and>
   (execSync c (shadcnCommand install_option componentIdentifier) = ExecThrows status \<longrightarrow>
      (\<exists>n. fst (add_action c componentIdentifier install_option w) = Exit n \<and> n \<noteq> 0) \<and>
      manifest (snd (add_action c componentIdentifier install_option w)) = manifest w \<and>
      events (snd (add_action c componentIdentifier install_option w)) =
        events w @ (if isUrl c componentIdentifier then [Fetch componentIdentifier] else []) @
        [Exec (shadcnCommand install_option componentIdentifier)])"
proof -
  have a: "fst (prepare_entry c componentIdentifier w) =
        \<lparr>name = componentIdentifier, sourceUrl = Some componentIdentifier,
         sourceType = url_fetch_failed, registryItem = None, fetchError = Some message,
         addedByCLI = True\<rparr>"
    if "isUrl c componentIdentifier" and "fetch_item (fetch c componentIdentifier) = Inl message"
    using that by (simp add: prepare_entry_def)
  have w1: "snd (prepare_entry c componentIdentifier w) = w\<lparr>events := events w @ [Fetch componentIdentifier]\<rparr>"
    if "isUrl c componentIdentifier"
    using that by (simp add: prepare_entry_def Let_def split: sum.splits)
  have b: "take (length (events w) + 2) (events (snd (add_action c componentIdentifier install_option w))) =
        events w @ [Fetch componentIdentifier,
                    Exec (''npx '' @ (if install_option then ''-y'' else ''-y --no-install'') @
                          '' shadcn add '' @ componentIdentifier)]"
    if "isUrl c componentIdentifier"
    using that
    by (cases "execSync c (shadcnCommand install_option componentIdentifier)")
      (simp_all add: add_action_def case_prod_beta Let_def w1 recordEntry_eq load_manifest_events
        shadcnCommand_def)
  have d: "add_action c componentIdentifier install_option w =
           (Completed (fst (recordEntry (fst (prepare_entry c componentIdentifier w))
                        (w\<lparr>events := events w @ [Fetch componentIdentifier,
                            Exec (shadcnCommand install_option componentIdentifier)]\<rparr>))),
            snd (recordEntry (fst (prepare_entry c componentIdentifier w))
                   (w\<lparr>events := events w @ [Fetch componentIdentifier,
                       Exec (shadcnCommand install_option componentIdentifier)]\<rparr>)))"
    if "isUrl c componentIdentifier"
      and "execSync c (shadcnCommand install_option componentIdentifier) = ExecDone"
    using that by (simp add: add_action_def case_prod_beta Let_def w1)
  have e: "(\<exists>n. fst (add_action c componentIdentifier install_option w) = Exit n \<and> n \<noteq> 0) \<and>
      manifest (snd (add_action c componentIdentifier install_option w)) = manifest w \<and>
      events (snd (add_action c componentIdentifier install_option w)) =
        events w @ (if isUrl c componentIdentifier then [Fetch componentIdentifier] else []) @
        [Exec (shadcnCommand install_option componentIdentifier)]"
    if "execSync c (shadcnCommand install_option componentIdentifier) = ExecThrows status"
    using that
    by (simp add: add_action_def case_prod_beta Let_def prepare_entry_events prepare_entry_manifest
        split: option.splits)
  from a b d e show ?thesis by blast
qed

lemma failing_installer_url: "isUrl failing_installer registry_url"
  by (simp add: isUrl_def failing_installer_def)

lemma failing_installer_fetch: "fetch_item (fetch failing_installer registry_url) = Inl ''Failed to fetch: 404 Not Found''"
  by (simp add: fetch_item_def failing_installer_def show_nat.simps digit_char_def)

lemma working_installer_url: "isUrl working_installer registry_url"
  by (simp add: isUrl_def working_installer_def)

theorem failed_fetch_still_installs_witness:
  "isUrl failing_installer registry_url \<and>
   fetch_item (fetch failing_installer registry_url) = Inl ''Failed to fetch: 404 Not Found'' \<and>
   execSync failing_installer (shadcnCommand True registry_url) = ExecThrows (Some 2) \<and>
   sourceType (fst (prepare_entry failing_installer registry_url button_world)) = url_fetch_failed \<and>
   fetchError (fst (prepare_entry failing_installer registry_url button_world)) = Some ''Failed to fetch: 404 Not Found'' \<and>
   events (snd (add_action failing_installer registry_url True button_world)) =
     [Fetch registry_url, Exec (''npx -y shadcn add '' @ registry_url)] \<and>
   (\<exists>n. fst (add_action failing_installer registry_url True button_world) = Exit n \<and> n \<noteq> 0) \<and>
   manifest (snd (add_action failing_installer registry_url True button_world)) = Manifest [button_entry direct_name] \<and>
   isUrl working_installer registry_url \<and>
   fetch_item (fetch working_installer registry_url) = Inl ''fetch failed'' \<and>
   execSync working_installer (shadcnCommand False registry_url) = ExecDone \<and>
   fst (add_action working_installer registry_url False button_world) = Completed Added \<and>
   manifest (snd (add_action working_installer registry_url False button_world)) =
     Manifest [button_entry direct_name,
       \<lparr>name = registry_url, sourceUrl = Some registry_url, sourceType = url_fetch_failed,
        registryItem = None, fetchError = Some ''fetch failed'', addedByCLI = True\<rparr>] \<and>
   events (snd (add_action working_installer registry_url False button_world)) =
     [Fetch registry_url, Exec (''npx -y --no-install shadcn add '' @ registry_url), ReadManifest, WriteManifest]"
proof -
  have x: "execSync failing_installer (shadcnCommand True registry_url) = ExecThrows (Some 2)"
    by (simp add: failing_installer_def)
  have f: "fetch_item (fetch working_installer registry_url) = Inl ''fetch failed''"
    by (simp add: fetch_item_def working_installer_def)
  have y: "execSync working_installer (shadcnCommand False registry_url) = ExecDone"
    by (simp add: working_installer_def)
  note off = failed_fetch_still_installs
      [of failing_installer registry_url "''Failed to fetch: 404 Not Found''" button_world True "Some 2"]
  note on = failed_fetch_still_installs [of working_installer registry_url "''fetch failed''" button_world False None]
  have p: "fst (prepare_entry failing_installer registry_url button_world) =
        \<lparr>name = registry_url, sourceUrl = Some registry_url,
         sourceType = url_fetch_failed, registryItem = None,
         fetchError = Some ''Failed to fetch: 404 Not Found'', addedByCLI = True\<rparr>"
    using off failing_installer_url failing_installer_fetch by blast
  have 1: "sourceType (fst (prepare_entry failing_installer registry_url button_world)) = url_fetch_failed"
    and 2: "fetchError (fst (prepare_entry failing_installer registry_url button_world)) = Some ''Failed to fetch: 404 Not Found''"
    by (simp_all add: p)
  have "events (snd (add_action failing_installer registry_url True button_world)) =
        events button_world @ (if isUrl failing_installer registry_url then [Fetch registry_url] else []) @
        [Exec (shadcnCommand True registry_url)]"
    using off x by blast
  then have 3: "events (snd (add_action failing_installer registry_url True button_world)) =
     [Fetch registry_url, Exec (''npx -y shadcn add '' @ registry_url)]"
    by (simp add: failing_installer_url button_world_def shadcnCommand_def)
  have 4: "\<exists>n. fst (add_action failing_installer registry_url True button_world) = Exit n \<and> n \<noteq> 0"
    using off x by blast
  have "manifest (snd (add_action failing_installer registry_url True button_world)) = manifest button_world"
    using off x by blast
  then have 5: "manifest (snd (add_action failing_installer registry_url True button_world)) = Manifest [button_entry direct_name]"
    by (simp add: button_world_def)
  have q: "fst (prepare_entry working_installer registry_url button_world) =
        \<lparr>name = registry_url, sourceUrl = Some registry_url,
         sourceType = url_fetch_failed, registryItem = None,
         fetchError = Some ''fetch failed'', addedByCLI = True\<rparr>"
    using on working_installer_url f by blast
  have r: "add_action working_installer registry_url False button_world =
           (Completed (fst (recordEntry (fst (prepare_entry working_installer registry_url button_world))
                        (button_world\<lparr>events := events button_world @ [Fetch registry_url,
                            Exec (shadcnCommand False registry_url)]\<rparr>))),
            snd (recordEntry (fst (prepare_entry working_installer registry_url button_world))
                   (button_world\<lparr>events := events button_world @ [Fetch registry_url,
                       Exec (shadcnCommand False registry_url)]\<rparr>)))"
    using on working_installer_url f y by blast
  have 6: "fst (add_action working_installer registry_url False button_world) = Completed Added"
    unfolding r q
    by (simp add: recordEntry_eq stored_entries_def entry_key_def button_world_def button_entry_def
        registry_url_def)
  have 7: "manifest (snd (add_action working_installer registry_url False button_world)) =
     Manifest [button_entry direct_name,
       \<lparr>name = registry_url, sourceUrl = Some registry_url, sourceType = url_fetch_failed,
        registryItem = None, fetchError = Some ''fetch failed'', addedByCLI = True\<rparr>]"
    unfolding r q
    by (simp add: recordEntry_eq stored_entries_def entry_key_def button_world_def button_entry_def
        registry_url_def)
  have 8: "events (snd (add_action working_installer registry_url False button_world)) =
     [Fetch registry_url, Exec (''npx -y --no-install shadcn add '' @ registry_url), ReadManifest, WriteManifest]"
    unfolding r q
    by (simp add: recordEntry_eq stored_entries_def entry_key_def button_world_def button_entry_def
        registry_url_def load_manifest_def shadcnCommand_def)
  from failing_installer_url failing_installer_fetch x 1 2 3 4 5 working_installer_url f y 6 7 8 show ?thesis
    by blast
qed

end
